theory Spec2Isabelle
  imports Main "HOL-Library.Sublist"
begin

section \<open>The build, deploy and run script \<open>kernel/run.py\<close>\<close>

text \<open>
  A shallow embedding of \<open>run.py\<close>. Python strings are \<open>string\<close>, Python's unbounded
  integers are \<open>int\<close>, the parsed command line is a record, exceptions are values of the
  datatype \<open>py_error\<close>, and everything the script does to the outside world (the file
  system, the external commands it starts, the lines it prints) is explicit: a program
  takes the file system and returns the events it produced, the file system it left
  behind, and either an exception or a result.
\<close>

subsection \<open>Strings and integers\<close>

text \<open>\<open>str(n)\<close> for a Python integer, as \<open>'{}'.format(n)\<close> prints it.\<close>

definition digit :: "nat \<Rightarrow> char" where
  "digit d = char_of (48 + d)"

fun str_of_nat :: "nat \<Rightarrow> string" where
  "str_of_nat n = (if n < 10 then [digit n] else str_of_nat (n div 10) @ [digit (n mod 10)])"

declare str_of_nat.simps [simp del]

definition str_of_int :: "int \<Rightarrow> string" where
  "str_of_int i = (if i < 0 then CHR ''-'' # str_of_nat (nat (- i)) else str_of_nat (nat i))"

text \<open>\<open>s.split(c)\<close> with an explicit one-character separator: empty fields are kept.\<close>

fun split_on :: "char \<Rightarrow> string \<Rightarrow> string list" where
  "split_on c [] = [[]]"
| "split_on c (x # xs) =
     (if x = c then [] # split_on c xs
      else (case split_on c xs of
              [] \<Rightarrow> [[x]]
            | w # ws \<Rightarrow> (x # w) # ws))"

text \<open>
  \<open>s.split()\<close> without a separator: the fields are the maximal runs of characters that
  are not white space, and no field is empty. A \<open>char\<close> stands for the code point of
  its number, so the strings of this model are the Python strings of code points below
  256; among these \<open>str.isspace\<close> accepts the ASCII white space, the four separators
  28 to 31, the next-line character U+0085 and the no-break space U+00A0.
\<close>

definition isspace :: "char \<Rightarrow> bool" where
  "isspace c = (of_char c \<in> {9, 10, 11, 12, 13, 28, 29, 30, 31, 32, 133, 160 :: nat})"

fun split_ws :: "string \<Rightarrow> string \<Rightarrow> string list" where
  "split_ws cur [] = (if cur = [] then [] else [cur])"
| "split_ws cur (x # xs) =
     (if isspace x then (if cur = [] then split_ws [] xs else cur # split_ws [] xs)
      else split_ws (cur @ [x]) xs)"

definition py_split :: "string \<Rightarrow> string list" where
  "py_split s = split_ws [] s"

definition py_strip :: "string \<Rightarrow> string" where
  "py_strip s = rev (dropWhile isspace (rev (dropWhile isspace s)))"

text \<open>\<open>sep.join(xs)\<close>.\<close>

fun join :: "string \<Rightarrow> string list \<Rightarrow> string" where
  "join sep [] = []"
| "join sep [x] = x"
| "join sep (x # y # ys) = x @ sep @ join sep (y # ys)"

text \<open>Truth values of optional arguments: \<open>None\<close>, the empty string and \<open>0\<close> are false.\<close>

definition truthy_str :: "string option \<Rightarrow> bool" where
  "truthy_str v = (case v of None \<Rightarrow> False | Some s \<Rightarrow> s \<noteq> [])"

definition truthy_int :: "int option \<Rightarrow> bool" where
  "truthy_int v = (case v of None \<Rightarrow> False | Some i \<Rightarrow> i \<noteq> 0)"

text \<open>\<open>'{}'.format(v)\<close> for an optional string: \<open>None\<close> prints as the word None.\<close>

definition format_opt :: "string option \<Rightarrow> string" where
  "format_opt v = (case v of None \<Rightarrow> ''None'' | Some s \<Rightarrow> s)"

subsection \<open>The exit code table\<close>

definition BESPIN_EXIT_CODES :: "(int \<times> string) list" where
  "BESPIN_EXIT_CODES =
    [(0, ''[SUCCESS]''),
     (1, ''[FAIL] ReturnFromMain: main() function returned to arch_indepdendent part.''),
     (2, ''[FAIL] Encountered kernel panic.''),
     (3, ''[FAIL] Encountered OOM.''),
     (4, ''[FAIL] Encountered unexpected Interrupt.''),
     (5, ''[FAIL] General Protection Fault.''),
     (6, ''[FAIL] Unexpected Page Fault.''),
     (7, ''[FAIL] Unexpected process exit code when running a user-space test.''),
     (8, ''[FAIL] Unexpected exception during kernel initialization.''),
     (9, ''[FAIL] Got unrecoverable error (machine check, double fault).'')]"

text \<open>
  Lines 267 to 272 of \<open>run_qemu\<close>: the return code of the emulator process is shifted
  right by one bit (Python's \<open>>>\<close> on an unbounded integer, which rounds towards minus
  infinity), and the line to print is the table's entry, when \<open>dict.get\<close> returns a
  true value, or the line that asks for an update of the script.
\<close>

definition bespin_exit_code :: "int \<Rightarrow> int" where
  "bespin_exit_code returncode = drop_bit 1 returncode"

definition unknown_status_line :: "int \<Rightarrow> string" where
  "unknown_status_line code =
     ''[FAIL] Kernel exited with unknown error status '' @ str_of_int code @ ''... Update the script!''"

definition exit_code_line :: "int \<Rightarrow> string" where
  "exit_code_line code =
     (case map_of BESPIN_EXIT_CODES code of
        None \<Rightarrow> unknown_status_line code
      | Some msg \<Rightarrow> if msg \<noteq> [] then msg else unknown_status_line code)"

text \<open>The line printed for a raw return code, and the code \<open>run_qemu\<close> returns.\<close>

definition translate_exit :: "int \<Rightarrow> string \<times> int" where
  "translate_exit returncode =
     (exit_code_line (bespin_exit_code returncode), bespin_exit_code returncode)"

subsection \<open>The command line\<close>

text \<open>
  The namespace \<open>parser.parse_args()\<close> returns. Options without a default are \<open>None\<close>
  when they are not given.
\<close>

record args =
  verbose :: bool
  norun :: bool
  release :: bool
  kfeatures :: "string list"
  ufeatures :: "string list"
  mods :: "string list"
  cmd :: "string option"
  machine :: string
  qemu_settings :: "string option"
  qemu_nodes :: "int option"
  qemu_cores :: "int option"
  qemu_debug_cpu :: bool
  qemu_monitor :: bool

subsection \<open>Exceptions, the file system, events\<close>

datatype py_error =
    ValueError
  | ProcessExecutionError
  | FileNotFoundError
  | NotADirectoryError
  | IsADirectoryError
  | FileExistsError
  | SameFileError
  | UnicodeDecodeError
  | UnicodeEncodeError
  | SystemExit int

text \<open>
  A path is the list of its components below the root; a file system is an association
  list from canonical paths to nodes, the root being a directory that is not listed.
  There are no symbolic links and no permissions in this model.
\<close>

type_synonym path = "string list"

datatype node = File string | Dir

type_synonym filesystem = "(path \<times> node) list"

text \<open>What the script does to the outside world, in the order it does it.\<close>

datatype event =
    Log string
  | Print string
  | Xargo path path "string list"
  | Command "string list"
  | Shell string

text \<open>
  A program: from the file system to the events produced, the file system left behind,
  and an exception or a result. The file system and the events survive an exception.
\<close>

type_synonym 'a prog = "filesystem \<Rightarrow> event list \<times> filesystem \<times> (py_error + 'a)"

definition ret :: "'a \<Rightarrow> 'a prog" where
  "ret x fs = ([], fs, Inr x)"

definition throw :: "py_error \<Rightarrow> 'a prog" where
  "throw err fs = ([], fs, Inl err)"

definition emit :: "event \<Rightarrow> unit prog" where
  "emit ev fs = ([ev], fs, Inr ())"

definition rbind :: "'a prog \<Rightarrow> ('a \<Rightarrow> 'b prog) \<Rightarrow> 'b prog" where
  "rbind m f fs =
     (case m fs of
        (t, fs', Inl err) \<Rightarrow> (t, fs', Inl err)
      | (t, fs', Inr x) \<Rightarrow> (case f x fs' of (t', fs'', r) \<Rightarrow> (t @ t', fs'', r)))"

text \<open>The three parts of what a program returns.\<close>

abbreviation events_of :: "event list \<times> filesystem \<times> (py_error + 'a) \<Rightarrow> event list" where
  "events_of r \<equiv> fst r"

abbreviation fs_of :: "event list \<times> filesystem \<times> (py_error + 'a) \<Rightarrow> filesystem" where
  "fs_of r \<equiv> fst (snd r)"

abbreviation result_of :: "event list \<times> filesystem \<times> (py_error + 'a) \<Rightarrow> py_error + 'a" where
  "result_of r \<equiv> snd (snd r)"

text \<open>A \<open>for\<close> loop whose body neither breaks nor returns.\<close>

primrec for_each :: "('a \<Rightarrow> unit prog) \<Rightarrow> 'a list \<Rightarrow> unit prog" where
  "for_each body [] = ret ()"
| "for_each body (x # xs) = rbind (body x) (\<lambda>_. for_each body xs)"

definition log :: "string \<Rightarrow> unit prog" where
  "log msg = emit (Log msg)"

definition print :: "string \<Rightarrow> unit prog" where
  "print msg = emit (Print msg)"

text \<open>
  The environment of one run: where the script lies (\<open>SCRIPT_PATH\<close>, a real path), the
  working directory the script was started in, and the external programs, which this
  model does not look into. \<open>xargo\<close> is given the working directory, the value of
  \<open>RUST_TARGET_PATH\<close> and its arguments, and returns the file system it leaves and whether
  it exited with status 0. \<open>command\<close> stands for the other plumbum commands and returns
  the standard output, or \<open>None\<close> for a nonzero exit status. \<open>shell\<close> stands for
  \<open>subprocess.run(cmd, shell=True, stderr=subprocess.PIPE)\<close> and returns the file
  system, the return code and the bytes on standard error. \<open>decode_utf8\<close> is
  \<open>bytes.decode('utf-8')\<close>, \<open>None\<close> where the bytes are not UTF-8.
  \<open>text_encodable\<close> says whether the encoding of the locale, which a file opened in text
  mode uses, has an encoding for every character of a string.
\<close>

record env =
  script_path :: path
  start_cwd :: path
  xargo :: "path \<Rightarrow> path \<Rightarrow> string list \<Rightarrow> filesystem \<Rightarrow> filesystem \<times> bool"
  command :: "string list \<Rightarrow> string option"
  shell :: "string \<Rightarrow> filesystem \<Rightarrow> filesystem \<times> int \<times> string"
  decode_utf8 :: "string \<Rightarrow> string option"
  text_encodable :: "string \<Rightarrow> bool"

subsection \<open>Paths\<close>

text \<open>
  \<open>pathlib\<close>'s \<open>/\<close> with an absolute left operand: the right operand is cut at the
  slashes, empty components and \<open>.\<close> are dropped, \<open>..\<close> is kept, and a right operand
  that starts with a slash replaces the left one.
\<close>

definition path_parts :: "string \<Rightarrow> string list" where
  "path_parts s = filter (\<lambda>c. c \<noteq> [] \<and> c \<noteq> ''.'') (split_on CHR ''/'' s)"

definition joinpath :: "path \<Rightarrow> string \<Rightarrow> path" where
  "joinpath p s = (if s \<noteq> [] \<and> hd s = CHR ''/'' then path_parts s else p @ path_parts s)"

definition str_of_path :: "path \<Rightarrow> string" where
  "str_of_path p = (if p = [] then ''/'' else concat (map (\<lambda>c. CHR ''/'' # c) p))"

definition lookup :: "filesystem \<Rightarrow> path \<Rightarrow> node option" where
  "lookup fs p = (if p = [] then Some Dir else map_of fs p)"

text \<open>
  The operating system resolves a path component by component: every component but the
  last is looked up in a directory, and \<open>..\<close> is the parent of the directory reached
  (the root is its own parent). The result is the canonical path, which may not exist.
\<close>

fun walk :: "filesystem \<Rightarrow> path \<Rightarrow> string list \<Rightarrow> path option" where
  "walk fs cur [] = Some cur"
| "walk fs cur (c # cs) =
     (if lookup fs cur \<noteq> Some Dir then None
      else if c = ''..'' then walk fs (butlast cur) cs
      else walk fs (cur @ [c]) cs)"

definition stat :: "filesystem \<Rightarrow> path \<Rightarrow> node option" where
  "stat fs p = (case walk fs [] p of None \<Rightarrow> None | Some q \<Rightarrow> lookup fs q)"

definition path_exists :: "filesystem \<Rightarrow> path \<Rightarrow> bool" where
  "path_exists fs p = (stat fs p \<noteq> None)"

subsection \<open>Script settings and globals\<close>

definition CARGO_DEFAULT_ARGS :: "string list" where
  "CARGO_DEFAULT_ARGS = [''--color'', ''always'']"

definition ARCH :: string where
  "ARCH = ''x86_64''"

definition QEMU_TAP_NAME :: string where
  "QEMU_TAP_NAME = ''tap0''"

definition QEMU_TAP_ZONE :: string where
  "QEMU_TAP_ZONE = ''172.31.0.20/24''"

text \<open>
  \<open>(SCRIPT_PATH / '..').resolve()\<close> is the parent of the directory of the script;
  the paths below are built from it and from fixed names, so they are canonical.
\<close>

definition repo_root :: "env \<Rightarrow> path" where
  "repo_root e = butlast (script_path e)"

definition BOOTLOADER_PATH :: "env \<Rightarrow> path" where
  "BOOTLOADER_PATH e = repo_root e @ [''bootloader'']"

definition TARGET_PATH :: "env \<Rightarrow> path" where
  "TARGET_PATH e = repo_root e @ [''target'']"

definition KERNEL_PATH :: "env \<Rightarrow> path" where
  "KERNEL_PATH e = script_path e"

definition LIBS_PATH :: "env \<Rightarrow> path" where
  "LIBS_PATH e = repo_root e @ [''lib'']"

definition USR_PATH :: "env \<Rightarrow> path" where
  "USR_PATH e = repo_root e @ [''usr'']"

definition UEFI_TARGET :: string where
  "UEFI_TARGET = ARCH @ ''-uefi''"

definition KERNEL_TARGET :: string where
  "KERNEL_TARGET = ARCH @ ''-bespin''"

definition USER_TARGET :: string where
  "USER_TARGET = ARCH @ ''-bespin-none''"

subsection \<open>External commands\<close>

text \<open>
  \<open>with local.cwd(p)\<close> changes into the directory and fails when there is none; the
  body runs in the canonical directory. The previous directory is restored afterwards.
\<close>

definition local_cwd :: "path \<Rightarrow> path prog" where
  "local_cwd p fs =
     (case walk fs [] p of
        None \<Rightarrow> ([], fs, Inl FileNotFoundError)
      | Some q \<Rightarrow>
          (case lookup fs q of
             None \<Rightarrow> ([], fs, Inl FileNotFoundError)
           | Some (File c) \<Rightarrow> ([], fs, Inl NotADirectoryError)
           | Some Dir \<Rightarrow> ([], fs, Inr q)))"

text \<open>\<open>xargo(*build_args)\<close>: plumbum raises when the exit status is not 0.\<close>

definition run_xargo :: "env \<Rightarrow> path \<Rightarrow> path \<Rightarrow> string list \<Rightarrow> unit prog" where
  "run_xargo e d target_path argv fs =
     (case xargo e d target_path argv fs of
        (fs', ok) \<Rightarrow>
          ([Xargo d target_path argv], fs', if ok then Inr () else Inl ProcessExecutionError))"

definition run_command :: "env \<Rightarrow> string list \<Rightarrow> string prog" where
  "run_command e argv fs =
     (case command e argv of
        None \<Rightarrow> ([Command argv], fs, Inl ProcessExecutionError)
      | Some out \<Rightarrow> ([Command argv], fs, Inr out))"

definition subprocess_run :: "env \<Rightarrow> string \<Rightarrow> (int \<times> string) prog" where
  "subprocess_run e c fs =
     (case shell e c fs of (fs', returncode, stderr) \<Rightarrow> ([Shell c], fs', Inr (returncode, stderr)))"

subsection \<open>The build stages\<close>

definition build_bootloader :: "env \<Rightarrow> string list \<Rightarrow> args \<Rightarrow> unit prog" where
  "build_bootloader e cargo_default_args a =
     rbind (log ''Build bootloader'') (\<lambda>_.
     let uefi_build_args =
           [''build'', ''--target'', UEFI_TARGET] @ [''--package'', ''bootloader'']
             @ cargo_default_args
     in rbind (local_cwd (BOOTLOADER_PATH e)) (\<lambda>d.
        run_xargo e d (BOOTLOADER_PATH e) uefi_build_args))"

text \<open>The loop over \<open>args.kfeatures\<close>.\<close>

fun kernel_feature_args :: "string list \<Rightarrow> string list \<Rightarrow> string list" where
  "kernel_feature_args build_args [] = build_args"
| "kernel_feature_args build_args (feature # rest) =
     kernel_feature_args (build_args @ [''--features'', feature]) rest"

definition build_kernel :: "env \<Rightarrow> string list \<Rightarrow> args \<Rightarrow> unit prog" where
  "build_kernel e cargo_default_args a =
     rbind (log ''Build kernel'') (\<lambda>_.
     rbind (local_cwd (KERNEL_PATH e)) (\<lambda>d.
     let build_args =
           kernel_feature_args [''build'', ''--target'', KERNEL_TARGET] (kfeatures a)
             @ cargo_default_args
     in run_xargo e d (KERNEL_PATH e @ [''src'', ''arch'', ARCH]) build_args))"

definition build_user_libraries :: "env \<Rightarrow> string list \<Rightarrow> args \<Rightarrow> unit prog" where
  "build_user_libraries e cargo_default_args a =
     rbind (log ''Build user-space lib vibrio'') (\<lambda>_.
     let build_args =
           [''build'', ''--target'', USER_TARGET] @ [''--features'', ''rumprt'']
             @ cargo_default_args
     in rbind (local_cwd (LIBS_PATH e @ [''vibrio''])) (\<lambda>d.
        run_xargo e d (USR_PATH e) build_args))"

text \<open>
  \<open>mod_part, feature_part = feature.split(':')\<close>: the unpacking raises \<open>ValueError\<close>
  unless the split gives exactly two fields.
\<close>

definition split_feature :: "string \<Rightarrow> py_error + string \<times> string" where
  "split_feature feature =
     (case split_on CHR '':'' feature of
        [mod_part, feature_part] \<Rightarrow> Inr (mod_part, feature_part)
      | _ \<Rightarrow> Inl ValueError)"

text \<open>The loop over \<open>args.ufeatures\<close> in \<open>build_userspace\<close>, for one module.\<close>

fun feature_args :: "string \<Rightarrow> string list \<Rightarrow> string list \<Rightarrow> py_error + string list" where
  "feature_args module build_args [] = Inr build_args"
| "feature_args module build_args (feature # rest) =
     (if CHR '':'' \<in> set feature then
        (case split_feature feature of
           Inl err \<Rightarrow> Inl err
         | Inr (mod_part, feature_part) \<Rightarrow>
             if module = mod_part
             then feature_args module (build_args @ [''--features'', feature_part]) rest
             else feature_args module build_args rest)
      else feature_args module (build_args @ [''--features'', feature]) rest)"

text \<open>The body of the loop over \<open>args.mods\<close> in \<open>build_userspace\<close>.\<close>

definition build_module :: "env \<Rightarrow> string list \<Rightarrow> args \<Rightarrow> string \<Rightarrow> unit prog" where
  "build_module e build_args_default a module fs =
     (if \<not> path_exists fs (joinpath (USR_PATH e) module)
      then log (''User module '' @ module @ '' not found, skipping.'') fs
      else rbind (local_cwd (joinpath (USR_PATH e) module)) (\<lambda>d.
             case feature_args module build_args_default (ufeatures a) of
               Inl err \<Rightarrow> throw err
             | Inr build_args \<Rightarrow>
                 rbind (log (''Build user-module '' @ module)) (\<lambda>_.
                 run_xargo e d (USR_PATH e) build_args)) fs)"

definition build_userspace :: "env \<Rightarrow> string list \<Rightarrow> args \<Rightarrow> unit prog" where
  "build_userspace e cargo_default_args a =
     (let build_args_default = [''build'', ''--target'', USER_TARGET] @ cargo_default_args
      in for_each (build_module e build_args_default a) (mods a))"

subsection \<open>Deployment\<close>

text \<open>\<open>shutil.rmtree(d, ignore_errors=False)\<close>.\<close>

definition rmtree :: "path \<Rightarrow> unit prog" where
  "rmtree d fs = ([], filter (\<lambda>(q, n). \<not> prefix d q) fs, Inr ())"

text \<open>
  \<open>p.mkdir(parents=True, exist_ok=True)\<close>: missing directories are made from the top,
  and a file on the way is an error, in which case nothing was made.
\<close>

fun mkdir_from :: "path \<Rightarrow> string list \<Rightarrow> filesystem \<Rightarrow> py_error + filesystem" where
  "mkdir_from cur [] fs = Inr fs"
| "mkdir_from cur (c # cs) fs =
     (case lookup fs (cur @ [c]) of
        None \<Rightarrow> mkdir_from (cur @ [c]) cs ((cur @ [c], Dir) # fs)
      | Some Dir \<Rightarrow> mkdir_from (cur @ [c]) cs fs
      | Some (File x) \<Rightarrow> Inl (if cs = [] then FileExistsError else NotADirectoryError))"

definition mkdir_parents :: "path \<Rightarrow> unit prog" where
  "mkdir_parents p fs =
     (case mkdir_from [] p fs of
        Inl err \<Rightarrow> ([], fs, Inl err)
      | Inr fs' \<Rightarrow> ([], fs', Inr ()))"

text \<open>
  Opening a file for writing in binary mode and writing its whole content, as
  \<open>shutil.copy2\<close> does with the bytes of its source.
\<close>

definition write_file :: "path \<Rightarrow> string \<Rightarrow> filesystem \<Rightarrow> filesystem" where
  "write_file p c fs = (p, File c) # filter (\<lambda>(q, n). q \<noteq> p) fs"

definition open_write :: "path \<Rightarrow> string \<Rightarrow> unit prog" where
  "open_write p c fs =
     (if lookup fs p = Some Dir then ([], fs, Inl IsADirectoryError)
      else (case lookup fs (butlast p) of
              None \<Rightarrow> ([], fs, Inl FileNotFoundError)
            | Some (File x) \<Rightarrow> ([], fs, Inl NotADirectoryError)
            | Some Dir \<Rightarrow> ([], write_file p c fs, Inr ())))"

text \<open>
  \<open>with open(p, 'w') as f: f.write(s)\<close>: the file is opened in text mode, which makes it
  empty, and the string is encoded with the encoding of the locale; a string that
  encoding cannot encode raises \<open>UnicodeEncodeError\<close> and leaves the file empty.
\<close>

definition write_text :: "env \<Rightarrow> path \<Rightarrow> string \<Rightarrow> unit prog" where
  "write_text e p s fs =
     (if lookup fs p = Some Dir then ([], fs, Inl IsADirectoryError)
      else (case lookup fs (butlast p) of
              None \<Rightarrow> ([], fs, Inl FileNotFoundError)
            | Some (File x) \<Rightarrow> ([], fs, Inl NotADirectoryError)
            | Some Dir \<Rightarrow>
                if text_encodable e s then ([], write_file p s fs, Inr ())
                else ([], write_file p [] fs, Inl UnicodeEncodeError)))"

text \<open>
  \<open>shutil.copy2(src, dst)\<close> for a canonical source path whose last component, as the
  caller wrote it, is \<open>name\<close>: a destination that is a directory stands for the file
  \<open>name\<close> in it; copying a file onto itself raises \<open>SameFileError\<close>; then the source is
  opened for reading and the destination for writing.
\<close>

definition copy2 :: "path \<Rightarrow> string \<Rightarrow> path \<Rightarrow> unit prog" where
  "copy2 src name dst fs =
     (let target = (if lookup fs dst = Some Dir then dst @ [name] else dst)
      in case lookup fs src of
           None \<Rightarrow> ([], fs, Inl FileNotFoundError)
         | Some Dir \<Rightarrow> ([], fs, Inl (if target = src then SameFileError else IsADirectoryError))
         | Some (File c) \<Rightarrow>
             if target = src then ([], fs, Inl SameFileError) else open_write target c fs)"

text \<open>
  \<open>os.getcwd()\<close> raises when the working directory of the process is gone; the script
  is still in the directory it was started in.
\<close>

definition os_getcwd :: "env \<Rightarrow> bool \<Rightarrow> path prog" where
  "os_getcwd e removed fs =
     (if removed \<or> lookup fs (start_cwd e) \<noteq> Some Dir then ([], fs, Inl FileNotFoundError)
      else ([], fs, Inr (start_cwd e)))"

text \<open>\<open>d.glob("*.bin")\<close>: the entries of the directory whose name ends in \<open>.bin\<close>.\<close>

definition glob_bin :: "filesystem \<Rightarrow> path \<Rightarrow> path list" where
  "glob_bin fs d =
     map fst (filter (\<lambda>(q, n). q \<noteq> [] \<and> butlast q = d \<and> suffix ''.bin'' (last q)) fs)"

definition is_file :: "filesystem \<Rightarrow> path \<Rightarrow> bool" where
  "is_file fs p = (case stat fs p of Some (File c) \<Rightarrow> True | _ \<Rightarrow> False)"

text \<open>\<open>app.is_file()\<close> for an entry the directory listing returned.\<close>

definition is_file_entry :: "filesystem \<Rightarrow> path \<Rightarrow> bool" where
  "is_file_entry fs q = (case lookup fs q of Some (File c) \<Rightarrow> True | _ \<Rightarrow> False)"

definition debug_release :: "args \<Rightarrow> string" where
  "debug_release a = (if release a then ''release'' else ''debug'')"

definition uefi_build_path :: "env \<Rightarrow> args \<Rightarrow> path" where
  "uefi_build_path e a = TARGET_PATH e @ [UEFI_TARGET, debug_release a]"

definition user_build_path :: "env \<Rightarrow> args \<Rightarrow> path" where
  "user_build_path e a = TARGET_PATH e @ [USER_TARGET, debug_release a]"

definition kernel_build_path :: "env \<Rightarrow> args \<Rightarrow> path" where
  "kernel_build_path e a = TARGET_PATH e @ [KERNEL_TARGET, debug_release a]"

definition esp_path :: "env \<Rightarrow> args \<Rightarrow> path" where
  "esp_path e a = uefi_build_path e a @ [''esp'']"

definition esp_boot_path :: "env \<Rightarrow> args \<Rightarrow> path" where
  "esp_boot_path e a = esp_path e a @ [''EFI'', ''Boot'']"

text \<open>
  The body of the loop over \<open>args.mods\<close> in \<open>deploy\<close>. The path of the module's binary
  contains the module name as it was given, so it is resolved before it is read.
\<close>

definition deploy_module :: "env \<Rightarrow> args \<Rightarrow> string \<Rightarrow> unit prog" where
  "deploy_module e a module fs =
     (let src = joinpath (user_build_path e a) module
      in if \<not> is_file fs src then ret () fs
         else if module \<noteq> ''rkapps''
         then (case walk fs [] src of
                 None \<Rightarrow> throw FileNotFoundError fs
               | Some q \<Rightarrow> copy2 q (last src) (esp_path e a) fs)
         else (let to_copy = filter (is_file_entry fs) (glob_bin fs (user_build_path e a))
               in for_each (\<lambda>app. copy2 app (last app) (esp_path e a)) to_copy fs))"

text \<open>
  Lines 162 to 187 of \<open>deploy\<close>: the tree, the kernel, the boot loader, the command
  line. \<open>wipe\<close> is the test of line 172; when the tree that \<open>rmtree\<close> removed held
  the working directory, \<open>os.getcwd()\<close> in line 178 finds it gone, although \<open>mkdir\<close> may
  have made a directory of the same path again.
\<close>

definition deploy_layout :: "env \<Rightarrow> args \<Rightarrow> unit prog" where
  "deploy_layout e a =
     rbind (log ''Deploy binaries'') (\<lambda>_.
     rbind (\<lambda>fs. ret (lookup fs (esp_path e a) = Some Dir) fs) (\<lambda>wipe.
     rbind (if wipe then rmtree (esp_path e a) else ret ()) (\<lambda>_.
     rbind (mkdir_parents (esp_boot_path e a)) (\<lambda>_.
     rbind (os_getcwd e (wipe \<and> prefix (esp_path e a) (start_cwd e))) (\<lambda>cwd.
     rbind (copy2 (kernel_build_path e a @ [''bespin'']) ''bespin'' cwd) (\<lambda>_.
     rbind (copy2 (kernel_build_path e a @ [''bespin'']) ''bespin''
              (esp_path e a @ [''kernel''])) (\<lambda>_.
     rbind (copy2 (uefi_build_path e a @ [''bootloader.efi'']) ''bootloader.efi''
              (esp_boot_path e a @ [''BootX64.efi''])) (\<lambda>_.
     write_text e (esp_path e a @ [''cmdline.in''])
       (''./kernel '' @ format_opt (cmd a))))))))))"

text \<open>The whole of \<open>deploy\<close>: the lines above, then the loop over \<open>args.mods\<close>.\<close>

definition deploy :: "env \<Rightarrow> args \<Rightarrow> unit prog" where
  "deploy e a = rbind (deploy_layout e a) (\<lambda>_. for_each (deploy_module e a) (mods a))"

subsection \<open>Running\<close>

text \<open>Lines 214 to 245 of \<open>run_qemu\<close>.\<close>

definition qemu_base_args :: "env \<Rightarrow> args \<Rightarrow> string list" where
  "qemu_base_args e a =
     [''-no-reboot''] @ [''-enable-kvm'']
     @ [''-cpu'', ''host,migratable=no,+invtsc,+tsc,+x2apic,+fsgsbase'']
     @ [''-display'', ''none'', ''-serial'', ''stdio'']
     @ [''-drive'', ''if=pflash,format=raw,file='' @ str_of_path (BOOTLOADER_PATH e)
                      @ ''/OVMF_CODE.fd,readonly=on'']
     @ [''-drive'', ''if=pflash,format=raw,file='' @ str_of_path (BOOTLOADER_PATH e)
                      @ ''/OVMF_VARS.fd,readonly=on'']
     @ [''-device'', ''ahci,id=ahci,multifunction=on'']
     @ [''-drive'', ''if=none,format=raw,file=fat:rw:'' @ str_of_path (esp_path e a)
                      @ '',id=esp'']
     @ [''-device'', ''ide-drive,bus=ahci.0,drive=esp'']
     @ [''-device'', ''isa-debug-exit,iobase=0xf4,iosize=0x04'']
     @ [''-net'', ''nic,model=e1000,netdev=n0'']
     @ [''-netdev'', ''tap,id=n0,script=no,ifname=tap0'']
     @ (if qemu_debug_cpu a then [''-d'', ''int,cpu_reset''] else [])
     @ (if qemu_monitor a then [''-monitor'', ''telnet:127.0.0.1:55555,server,nowait'']
        else [])"

text \<open>Lines 246 to 251.\<close>

definition qemu_default_args :: "env \<Rightarrow> args \<Rightarrow> string list" where
  "qemu_default_args e a =
     qemu_base_args e a
     @ (if \<not> truthy_str (qemu_settings a) then [''-m'', ''1024''] else [])"

definition qemu_args :: "env \<Rightarrow> args \<Rightarrow> string list" where
  "qemu_args e a =
     qemu_default_args e a
     @ (if truthy_str (qemu_settings a)
        then (case qemu_settings a of None \<Rightarrow> [] | Some s \<Rightarrow> py_split s)
        else [])"

text \<open>Line 265: the command line given to the shell.\<close>

definition qemu_command :: "env \<Rightarrow> args \<Rightarrow> string" where
  "qemu_command e a = join '' '' ([''qemu-system-x86_64''] @ qemu_args e a)"

text \<open>Lines 254 to 256: the command that makes the tap interface.\<close>

definition tunctl_command :: "string \<Rightarrow> string \<Rightarrow> string list" where
  "tunctl_command user grp =
     [''sudo'', ''tunctl'', ''-t'', QEMU_TAP_NAME, ''-u'', user, ''-g'', grp]"

text \<open>
  The tap interface is made by \<open>sudo tunctl\<close>; line 257 builds the \<open>ifconfig\<close> command
  and does not run it. Then the emulator runs and its return code is translated.
\<close>

definition run_qemu :: "env \<Rightarrow> args \<Rightarrow> int prog" where
  "run_qemu e a =
     rbind (log ''Starting QEMU'') (\<lambda>_.
     rbind (run_command e [''whoami'']) (\<lambda>out1.
     rbind (run_command e [''id'', ''-gn'']) (\<lambda>out2.
     let user = py_strip out1; group = py_strip out2
     in rbind (run_command e (tunctl_command user group)) (\<lambda>_.
        let c = qemu_command e a
        in rbind (subprocess_run e c) (\<lambda>(returncode, stderr).
           case translate_exit returncode of
             (line, code) \<Rightarrow>
               rbind (print line) (\<lambda>_.
               rbind (if code \<noteq> 0
                      then rbind (log (''Invocation was: '' @ c)) (\<lambda>_.
                             if stderr \<noteq> []
                             then (case decode_utf8 e stderr of
                                     None \<Rightarrow> throw UnicodeDecodeError
                                   | Some s \<Rightarrow> print (''STDERR: '' @ s))
                             else ret ())
                      else ret ()) (\<lambda>_.
               ret code)))))))"

definition run :: "env \<Rightarrow> args \<Rightarrow> int prog" where
  "run e a =
     (if machine a = ''qemu'' then run_qemu e a
      else rbind (log (''Machine '' @ machine a @ '' not supported'')) (\<lambda>_. ret 99))"

subsection \<open>The main routine\<close>

text \<open>
  \<open>sys.exit(n)\<close> raises \<open>SystemExit n\<close>. The two \<open>append\<close>s to the global
  \<open>CARGO_DEFAULT_ARGS\<close> happen before the first stage reads it, so the stages take the
  extended list as an argument.
\<close>

definition qemu_flag_given :: "args \<Rightarrow> bool" where
  "qemu_flag_given a =
     (qemu_debug_cpu a \<or> truthy_str (qemu_settings a) \<or> qemu_monitor a
      \<or> truthy_int (qemu_cores a) \<or> truthy_int (qemu_nodes a))"

definition build_and_deploy :: "env \<Rightarrow> args \<Rightarrow> unit prog" where
  "build_and_deploy e a =
     (let cargo_default_args =
            CARGO_DEFAULT_ARGS @ (if release a then [''--release''] else [])
              @ (if verbose a then [''--verbose''] else [])
      in rbind (build_bootloader e cargo_default_args a) (\<lambda>_.
         rbind (build_kernel e cargo_default_args a) (\<lambda>_.
         rbind (build_user_libraries e cargo_default_args a) (\<lambda>_.
         rbind (build_userspace e cargo_default_args a) (\<lambda>_.
         deploy e a)))))"

definition main :: "env \<Rightarrow> args \<Rightarrow> unit prog" where
  "main e a =
     (if machine a \<noteq> ''qemu'' \<and> qemu_flag_given a
      then rbind (log ''Can't specify QEMU specific arguments for non-qemu hardware'') (\<lambda>_.
           throw (SystemExit 99))
      else rbind (build_and_deploy e a) (\<lambda>_.
           if \<not> norun a then rbind (run e a) (\<lambda>r. throw (SystemExit r)) else ret ()))"

text \<open>The exit status of the process: 0 at the end of the script, the low byte of the
  argument of \<open>sys.exit\<close>, and 1 for any other exception, which nothing catches.\<close>

definition exit_status :: "py_error + unit \<Rightarrow> int" where
  "exit_status r =
     (case r of Inr _ \<Rightarrow> 0 | Inl (SystemExit n) \<Rightarrow> n mod 256 | Inl _ \<Rightarrow> 1)"

subsection \<open>Entries of the ESP tree\<close>

text \<open>
  The paths below the ESP directory that lines 174 to 187 of \<open>deploy\<close> make, and the
  paths that the loop over the modules may write: the file name of a selected module
  other than \<open>rkapps\<close>, and any name ending in \<open>.bin\<close> when \<open>rkapps\<close> is selected.
\<close>

definition layout_entry :: "env \<Rightarrow> args \<Rightarrow> path \<Rightarrow> bool" where
  "layout_entry e a q =
     (q \<in> set [esp_path e a @ [''kernel''], esp_path e a @ [''EFI''], esp_boot_path e a,
                esp_boot_path e a @ [''BootX64.efi''], esp_path e a @ [''cmdline.in'']])"

definition module_entry :: "env \<Rightarrow> string list \<Rightarrow> args \<Rightarrow> path \<Rightarrow> bool" where
  "module_entry e ms a q =
     ((\<exists>m \<in> set ms. m \<noteq> ''rkapps''
          \<and> q = esp_path e a @ [last (joinpath (user_build_path e a) m)])
      \<or> (''rkapps'' \<in> set ms \<and> q \<noteq> [] \<and> butlast q = esp_path e a
          \<and> suffix ''.bin'' (last q)))"

subsection \<open>A sample run\<close>

text \<open>
  A repository at \<open>/repo\<close> whose stages have all been built once, external programs
  that succeed, and a command line. They serve to run the definitions on.
\<close>

definition demo_fs :: filesystem where
  "demo_fs =
    [([''repo''], Dir),
     ([''repo'', ''kernel''], Dir),
     ([''repo'', ''bootloader''], Dir),
     ([''repo'', ''lib''], Dir),
     ([''repo'', ''lib'', ''vibrio''], Dir),
     ([''repo'', ''usr''], Dir),
     ([''repo'', ''usr'', ''init''], Dir),
     ([''repo'', ''target''], Dir),
     ([''repo'', ''target'', ''x86_64-bespin''], Dir),
     ([''repo'', ''target'', ''x86_64-bespin'', ''debug''], Dir),
     ([''repo'', ''target'', ''x86_64-bespin'', ''debug'', ''bespin''], File ''KERNEL''),
     ([''repo'', ''target'', ''x86_64-uefi''], Dir),
     ([''repo'', ''target'', ''x86_64-uefi'', ''debug''], Dir),
     ([''repo'', ''target'', ''x86_64-uefi'', ''debug'', ''bootloader.efi''], File ''LOADER''),
     ([''repo'', ''target'', ''x86_64-bespin-none''], Dir),
     ([''repo'', ''target'', ''x86_64-bespin-none'', ''debug''], Dir),
     ([''repo'', ''target'', ''x86_64-bespin-none'', ''debug'', ''init''], File ''INIT''),
     ([''repo'', ''target'', ''x86_64-bespin-none'', ''debug'', ''app.bin''], File ''APP'')]"

definition demo_env :: env where
  "demo_env =
    \<lparr> script_path = [''repo'', ''kernel''],
      start_cwd = [''repo'', ''kernel''],
      xargo = (\<lambda>d target_path argv fs. (fs, True)),
      command = (\<lambda>argv. Some ''user''),
      shell = (\<lambda>c fs. (fs, 0, [])),
      decode_utf8 = (\<lambda>b. if list_all (\<lambda>c. of_char c < (128 :: nat)) b then Some b else None),
      text_encodable = (\<lambda>s. True) \<rparr>"



definition demo_ascii_env :: env where
  "demo_ascii_env =
     demo_env \<lparr> text_encodable := (\<lambda>s. list_all (\<lambda>c. of_char c < (128 :: nat)) s) \<rparr>"

definition demo_args :: args where
  "demo_args =
    \<lparr> verbose = False, norun = False, release = False,
      kfeatures = [], ufeatures = [''init:print-test'', ''rumprt''], mods = [''init''],
      cmd = Some ''log=info'', machine = ''qemu'',
      qemu_settings = None, qemu_nodes = None, qemu_cores = None,
      qemu_debug_cpu = False, qemu_monitor = False \<rparr>"

text \<open>The sample repository after one deployment of the sample command line.\<close>

definition demo_deployed :: filesystem where
  "demo_deployed = fs_of (deploy demo_env demo_args demo_fs)"

text \<open>The sample repository when the build of \<open>rkapps\<close> has left its own binary.\<close>

definition demo_rk_fs :: filesystem where
  "demo_rk_fs =
     ([''repo'', ''target'', ''x86_64-bespin-none'', ''debug'', ''rkapps''], File ''RKAPPS'')
       # demo_fs"

section \<open>Properties\<close>

subsection \<open>Splitting strings\<close>

lemma split_on_not_Nil: "split_on c s \<noteq> []"
  by (induction s) (auto split: list.splits)

lemma length_split_on: "length (split_on c s) = Suc (count_list s c)"
  by (induction s) (auto split: list.splits simp: split_on_not_Nil)

lemma split_on_absent: "c \<notin> set s \<Longrightarrow> split_on c s = [s]"
  by (induction s) auto

lemma split_on_append: "c \<notin> set m \<Longrightarrow> split_on c (m @ c # f) = m # split_on c f"
  by (induction m) (auto simp: split_on_not_Nil split: list.splits)

lemma split_on_no_sep: "w \<in> set (split_on c s) \<Longrightarrow> c \<notin> set w"
proof (induction s arbitrary: w)
  case Nil
  then show ?case by simp
next
  case (Cons x xs)
  show ?case
  proof (cases "x = c")
    case True
    with Cons show ?thesis by auto
  next
    case False
    obtain v vs where v: "split_on c xs = v # vs"
      using split_on_not_Nil [of c xs] by (cases "split_on c xs") auto
    with False Cons.prems have "w = x # v \<or> w \<in> set vs" by simp
    then show ?thesis
    proof
      assume "w = x # v"
      moreover from v have "v \<in> set (split_on c xs)" by simp
      ultimately show ?thesis using Cons.IH [of v] False by auto
    next
      assume "w \<in> set vs"
      with v have "w \<in> set (split_on c xs)" by simp
      then show ?thesis by (rule Cons.IH)
    qed
  qed
qed

lemma split_on_one: "split_on c s = [w] \<Longrightarrow> s = w"
proof (induction s arbitrary: w)
  case Nil
  then show ?case by simp
next
  case (Cons x xs)
  show ?case
  proof (cases "x = c")
    case True
    with Cons.prems show ?thesis by (simp add: split_on_not_Nil)
  next
    case False
    obtain v vs where v: "split_on c xs = v # vs"
      using split_on_not_Nil [of c xs] by (cases "split_on c xs") auto
    with False Cons.prems have "w = x # v" "vs = []" by simp_all
    with v Cons.IH [of v] show ?thesis by simp
  qed
qed

lemma split_on_two: "split_on c s = [m, f] \<Longrightarrow> s = m @ c # f"
proof (induction s arbitrary: m)
  case Nil
  then show ?case by simp
next
  case (Cons x xs)
  show ?case
  proof (cases "x = c")
    case True
    with Cons.prems have "m = []" "split_on c xs = [f]" by simp_all
    with True split_on_one [of c xs f] show ?thesis by simp
  next
    case False
    obtain v vs where v: "split_on c xs = v # vs"
      using split_on_not_Nil [of c xs] by (cases "split_on c xs") auto
    with False Cons.prems have "m = x # v" "vs = [f]" by simp_all
    with v Cons.IH [of v] show ?thesis by simp
  qed
qed

lemma split_feature_Inr:
  assumes "split_feature tok = Inr (m, f)"
  shows "tok = m @ CHR '':'' # f \<and> CHR '':'' \<notin> set m \<and> CHR '':'' \<notin> set f"
proof -
  from assms have s: "split_on CHR '':'' tok = [m, f]"
    by (auto simp: split_feature_def split: list.splits)
  from split_on_no_sep [of m "CHR '':''" tok] split_on_no_sep [of f "CHR '':''" tok] s
  have "CHR '':'' \<notin> set m" "CHR '':'' \<notin> set f" by simp_all
  with split_on_two [OF s] show ?thesis by simp
qed

lemma one_colon_prefix:
  assumes "CHR '':'' \<notin> set m" and "CHR '':'' \<notin> set f" and "CHR '':'' \<notin> set t"
    and "m @ CHR '':'' # f = m' @ CHR '':'' # t"
  shows "m = m'"
proof -
  from assms(1,2) have "count_list (m @ CHR '':'' # f) CHR '':'' = 1"
    by (simp add: count_list_0_iff)
  with assms(4) have "count_list (m' @ CHR '':'' # t) CHR '':'' = 1" by simp
  with assms(3) have "CHR '':'' \<notin> set m'"
    by (simp add: count_list_0_iff)
  with assms(3) have "split_on CHR '':'' (m' @ CHR '':'' # t) = [m', t]"
    by (simp add: split_on_append split_on_absent)
  moreover from assms(1,2) have "split_on CHR '':'' (m @ CHR '':'' # f) = [m, f]"
    by (simp add: split_on_append split_on_absent)
  ultimately show ?thesis using assms(4) by simp
qed

lemma split_feature_one_colon:
  "CHR '':'' \<notin> set m \<Longrightarrow> CHR '':'' \<notin> set f \<Longrightarrow> split_feature (m @ CHR '':'' # f) = Inr (m, f)"
  by (simp add: split_feature_def split_on_append split_on_absent)

lemma split_feature_error: "split_feature t = Inl err \<Longrightarrow> err = ValueError"
  by (auto simp: split_feature_def split: list.splits)

lemma split_feature_many_colons:
  "2 \<le> count_list t CHR '':'' \<Longrightarrow> split_feature t = Inl ValueError"
proof -
  assume "2 \<le> count_list t CHR '':''"
  then have "3 \<le> length (split_on CHR '':'' t)"
    by (simp add: length_split_on)
  then show ?thesis
    by (auto simp: split_feature_def split: list.splits)
qed



subsection \<open>Feature tokens\<close>

lemma feature_args_skip:
  assumes "CHR '':'' \<notin> set m" "CHR '':'' \<notin> set f" "module \<noteq> m"
  shows "feature_args module acc (filter (\<lambda>t. t \<noteq> m @ '':'' @ f) fs) = feature_args module acc fs"
  using assms
  by (induction module acc fs rule: feature_args.induct)
     (auto simp: split_feature_one_colon split: sum.splits)

lemma feature_args_many_colons:
  "t \<in> set fs \<Longrightarrow> 2 \<le> count_list t CHR '':'' \<Longrightarrow> feature_args module acc fs = Inl ValueError"
proof (induction module acc fs rule: feature_args.induct)
  case (1 module build_args)
  then show ?case by simp
next
  case (2 module build_args feature rest)
  show ?case
  proof (cases "feature = t")
    case True
    with 2(5) have "CHR '':'' \<in> set feature"
      using count_list_0_iff [of feature "CHR '':''"] by auto
    with True 2(5) show ?thesis by (simp add: split_feature_many_colons)
  next
    case False
    with 2 show ?thesis by (auto split: sum.splits dest: split_feature_error)
  qed
qed


lemma feature_args_count:
  assumes "CHR '':'' \<notin> set t"
  shows "feature_args module acc toks = Inr argv \<Longrightarrow>
     \<exists>fl. argv = acc @ concat (map (\<lambda>f. [''--features'', f]) fl)
        \<and> count_list fl t = count_list toks t + count_list toks (module @ '':'' @ t)"
proof (induction module acc toks rule: feature_args.induct)
  case (1 module build_args)
  then have "argv = build_args @ concat (map (\<lambda>f. [''--features'', f]) [])
      \<and> count_list [] t = count_list [] t + count_list [] (module @ '':'' @ t)"
    by simp
  then show ?case by blast
next
  case (2 module build_args feature rest)
  show ?case
  proof (cases "CHR '':'' \<in> set feature")
    case colon: True
    with assms have ft: "feature \<noteq> t" by auto
    from colon "2.prems" obtain mp fp where sp: "split_feature feature = Inr (mp, fp)"
      by (cases "split_feature feature") auto
    from split_feature_Inr [OF sp] have f: "feature = mp @ CHR '':'' # fp"
      and cm: "CHR '':'' \<notin> set mp" and cf: "CHR '':'' \<notin> set fp"
      by simp_all
    show ?thesis
    proof (cases "module = mp")
      case True
      with colon sp "2.prems"
      have "feature_args module (build_args @ [''--features'', fp]) rest = Inr argv" by simp
      from "2.IH"(1) [OF colon sp refl True this] obtain fl where
        a: "argv = (build_args @ [''--features'', fp]) @ concat (map (\<lambda>f. [''--features'', f]) fl)"
        and c: "count_list fl t = count_list rest t + count_list rest (module @ '':'' @ t)"
        by blast
      from f True have e: "feature = module @ '':'' @ t \<longleftrightarrow> fp = t" by simp
      from a have "argv = build_args @ concat (map (\<lambda>f. [''--features'', f]) (fp # fl))"
        by simp
      moreover from c ft e have "count_list (fp # fl) t
          = count_list (feature # rest) t + count_list (feature # rest) (module @ '':'' @ t)"
        by simp
      ultimately show ?thesis by blast
    next
      case False
      with colon sp "2.prems" have "feature_args module build_args rest = Inr argv" by simp
      from "2.IH"(2) [OF colon sp refl False this] obtain fl where
        a: "argv = build_args @ concat (map (\<lambda>f. [''--features'', f]) fl)"
        and c: "count_list fl t = count_list rest t + count_list rest (module @ '':'' @ t)"
        by blast
      have "feature \<noteq> module @ '':'' @ t"
      proof
        assume "feature = module @ '':'' @ t"
        with f have "mp @ CHR '':'' # fp = module @ CHR '':'' # t" by simp
        from one_colon_prefix [OF cm cf assms this] False show False by simp
      qed
      with c ft have "count_list fl t
          = count_list (feature # rest) t + count_list (feature # rest) (module @ '':'' @ t)"
        by simp
      with a show ?thesis by blast
    qed
  next
    case bare: False
    with "2.prems"
    have "feature_args module (build_args @ [''--features'', feature]) rest = Inr argv" by simp
    from "2.IH"(3) [OF bare this] obtain fl where
      a: "argv = (build_args @ [''--features'', feature])
                   @ concat (map (\<lambda>f. [''--features'', f]) fl)"
      and c: "count_list fl t = count_list rest t + count_list rest (module @ '':'' @ t)"
      by blast
    from bare have n: "feature \<noteq> module @ '':'' @ t" by auto
    from a have "argv = build_args @ concat (map (\<lambda>f. [''--features'', f]) (feature # fl))"
      by simp
    moreover from c n have "count_list (feature # fl) t
        = count_list (feature # rest) t + count_list (feature # rest) (module @ '':'' @ t)"
      by simp
    ultimately show ?thesis by blast
  qed
qed

subsection \<open>Programs\<close>

lemma rbind_Inr:
  "rbind m f fs = (t, fs', Inr y) \<Longrightarrow>
     \<exists>t1 fs1 x t2. m fs = (t1, fs1, Inr x) \<and> f x fs1 = (t2, fs', Inr y) \<and> t = t1 @ t2"
  by (auto simp: rbind_def split: prod.splits sum.splits)


lemma for_each_cong: "(\<And>x. x \<in> set xs \<Longrightarrow> f x = g x) \<Longrightarrow> for_each f xs = for_each g xs"
  by (induction xs) simp_all

lemma for_each_events:
  "ev \<in> set (fst (for_each body xs fs)) \<Longrightarrow> \<exists>x \<in> set xs. \<exists>fs1. ev \<in> set (fst (body x fs1))"
proof (induction xs arbitrary: fs)
  case Nil
  then show ?case by (simp add: ret_def)
next
  case (Cons x xs)
  obtain t fs' r where b: "body x fs = (t, fs', r)" by (cases "body x fs") auto
  show ?case
  proof (cases r)
    case (Inl err)
    with b Cons.prems have "ev \<in> set (fst (body x fs))" by (simp add: rbind_def)
    then show ?thesis by auto
  next
    case (Inr u)
    obtain t' fs'' r' where c: "for_each body xs fs' = (t', fs'', r')"
      by (cases "for_each body xs fs'") auto
    with b Inr Cons.prems have "ev \<in> set t \<or> ev \<in> set t'" by (simp add: rbind_def)
    then show ?thesis
    proof
      assume "ev \<in> set t"
      with b have "ev \<in> set (fst (body x fs))" by simp
      then show ?thesis by auto
    next
      assume "ev \<in> set t'"
      with c have "ev \<in> set (fst (for_each body xs fs'))" by simp
      from Cons.IH [OF this] show ?thesis by auto
    qed
  qed
qed

lemma build_module_xargo:
  "Xargo d tp argv \<in> set (fst (build_module e dflt a module fs)) \<Longrightarrow>
     feature_args module dflt (ufeatures a) = Inr argv \<and> tp = USR_PATH e"
  by (auto simp: build_module_def log_def emit_def rbind_def local_cwd_def throw_def run_xargo_def
      split: if_splits option.splits node.splits sum.splits prod.splits)


lemma for_each_Inr_bodies:
  assumes "for_each body xs fs = (t, fs', Inr u)" and "x \<in> set xs"
  shows "\<exists>fs1 t1 fs2 u1 pre post. body x fs1 = (t1, fs2, Inr u1) \<and> t = pre @ t1 @ post"
  using assms
proof (induction xs arbitrary: fs t)
  case Nil
  then show ?case by simp
next
  case (Cons y ys)
  from Cons.prems(1) obtain t1 fs1 u1 t2 where
    b: "body y fs = (t1, fs1, Inr u1)" and r: "for_each body ys fs1 = (t2, fs', Inr u)"
    and t: "t = t1 @ t2"
    by (auto dest!: rbind_Inr)
  show ?case
  proof (cases "x = y")
    case True
    with b t have "body x fs = (t1, fs1, Inr u1) \<and> t = [] @ t1 @ t2" by simp
    then show ?thesis by blast
  next
    case False
    with Cons.prems(2) have "x \<in> set ys" by simp
    from Cons.IH [OF r this] obtain fs2 t3 fs3 u3 pre post where
      "body x fs2 = (t3, fs3, Inr u3)" "t2 = pre @ t3 @ post"
      by blast
    with t have "body x fs2 = (t3, fs3, Inr u3) \<and> t = (t1 @ pre) @ t3 @ post" by simp
    then show ?thesis by blast
  qed
qed

lemma build_module_Inr:
  assumes "build_module e dflt a module fs = (t, fs', Inr u)"
  shows "t = [Log (''User module '' @ module @ '' not found, skipping.'')]
         \<or> (\<exists>d argv. feature_args module dflt (ufeatures a) = Inr argv
               \<and> t = [Log (''Build user-module '' @ module), Xargo d (USR_PATH e) argv])"
  using assms
  by (auto simp: build_module_def log_def emit_def rbind_def local_cwd_def throw_def run_xargo_def
      split: if_splits option.splits node.splits sum.splits prod.splits)
subsection \<open>Exit code translation\<close>





text \<open>
  Claim C9. The translation depends on the shifted value only, so an even raw status
  and its successor are translated alike; the raw status 1 is reported as success
  with the code 0.
\<close>

theorem exit_code_low_bit_ignored:
  "(even r \<longrightarrow> translate_exit (r + 1) = translate_exit r) \<and>
   (bespin_exit_code r = bespin_exit_code r' \<longrightarrow> translate_exit r = translate_exit r') \<and>
   translate_exit 1 = (''[SUCCESS]'', 0)"
proof -
  have a: "bespin_exit_code (r + 1) = bespin_exit_code r" if "even r"
    using that by (auto simp: bespin_exit_code_def drop_bit_eq_div elim!: evenE)
  have b: "translate_exit 1 = (''[SUCCESS]'', 0)"
    by (simp add: translate_exit_def bespin_exit_code_def exit_code_line_def BESPIN_EXIT_CODES_def
        drop_bit_eq_div)
  have c: "translate_exit x = translate_exit y" if "bespin_exit_code x = bespin_exit_code y" for x y
    unfolding translate_exit_def that ..
  from a b c show ?thesis by blast
qed

theorem exit_code_low_bit_ignored_witness:
  "even (4::int) \<and> translate_exit (4 + 1) = translate_exit 4"
proof -
  have "even (4::int)" by simp
  with exit_code_low_bit_ignored [of 4] show ?thesis by blast
qed

subsection \<open>User features\<close>

text \<open>
  Claim C3. A token \<open>module:feature\<close> (one colon) whose module is not among the
  selected modules reaches no build: the user-space build with the token is the build
  without it, events, file system and result alike, and for each selected module the
  token adds nothing to the arguments and raises nothing.
\<close>

theorem unmatched_module_feature_ignored:
  assumes "CHR '':'' \<notin> set m" and "CHR '':'' \<notin> set f" and "m \<notin> set (mods a)"
  shows "build_userspace e cargo (a\<lparr>ufeatures := filter (\<lambda>t. t \<noteq> m @ '':'' @ f) (ufeatures a)\<rparr>)
           = build_userspace e cargo a
         \<and> (\<forall>module \<in> set (mods a). \<forall>build_args.
               feature_args module build_args [m @ '':'' @ f] = Inr build_args)"
proof -
  let ?a = "a\<lparr>ufeatures := filter (\<lambda>t. t \<noteq> m @ '':'' @ f) (ufeatures a)\<rparr>"
  have "build_module e dflt ?a module = build_module e dflt a module"
    if "module \<in> set (mods a)" for module dflt
  proof -
    from that assms(3) have "module \<noteq> m" by auto
    then have "feature_args module dflt (ufeatures ?a) = feature_args module dflt (ufeatures a)"
      using feature_args_skip [OF assms(1,2)] by simp
    then show ?thesis unfolding build_module_def by (intro ext) simp
  qed
  then have "for_each (build_module e dflt ?a) (mods a) = for_each (build_module e dflt a) (mods a)"
    for dflt
    by (intro for_each_cong)
  then have 1: "build_userspace e cargo ?a = build_userspace e cargo a"
    by (simp add: build_userspace_def)
  have 2: "feature_args module build_args [m @ '':'' @ f] = Inr build_args"
    if "module \<in> set (mods a)" for module build_args
  proof -
    from that assms(3) have "module \<noteq> m" by auto
    with assms(1,2) show ?thesis by (simp add: split_feature_one_colon)
  qed
  from 1 2 show ?thesis by blast
qed

theorem unmatched_module_feature_ignored_witness:
  "CHR '':'' \<notin> set ''rkapps'' \<and> CHR '':'' \<notin> set ''virtio'' \<and> ''rkapps'' \<notin> set (mods demo_args)
   \<and> build_userspace demo_env CARGO_DEFAULT_ARGS
        (demo_args\<lparr>ufeatures :=
           filter (\<lambda>t. t \<noteq> ''rkapps'' @ '':'' @ ''virtio'') (ufeatures demo_args)\<rparr>)
      = build_userspace demo_env CARGO_DEFAULT_ARGS demo_args
   \<and> feature_args ''init'' [''build''] [''rkapps'' @ '':'' @ ''virtio''] = Inr [''build'']"
proof -
  have h: "CHR '':'' \<notin> set ''rkapps''" "CHR '':'' \<notin> set ''virtio''"
    "''rkapps'' \<notin> set (mods demo_args)"
    by (simp_all add: demo_args_def)
  have i: "''init'' \<in> set (mods demo_args)" by (simp add: demo_args_def)
  from unmatched_module_feature_ignored [OF h, of demo_env CARGO_DEFAULT_ARGS] h i
  show ?thesis by blast
qed

text \<open>
  Claim C4, amended. Let a token have no colon. Every \<open>xargo\<close> invocation of the
  user-space build is the build of a selected module, and its arguments are the default
  arguments followed by \<open>--features\<close> pairs only, among which the pair for the token
  occurs once for each occurrence of the token in the list of user features and once
  more for each occurrence of the token \<open>module:token\<close> that names this module: exactly
  once, when the token is listed once and \<open>module:token\<close> is not listed. When the
  user-space build succeeds, every selected module has either been skipped with the
  notice that it was not found or been built by such an invocation, which follows the
  log line of its build.
\<close>

theorem bare_feature_in_every_module_build:
  assumes "CHR '':'' \<notin> set t"
  shows "(\<forall>d tp argv. Xargo d tp argv \<in> set (events_of (build_userspace e cargo a fs)) \<longrightarrow>
            (\<exists>module \<in> set (mods a). \<exists>fl.
               argv = [''build'', ''--target'', USER_TARGET] @ cargo
                        @ concat (map (\<lambda>f. [''--features'', f]) fl)
               \<and> count_list fl t
                   = count_list (ufeatures a) t + count_list (ufeatures a) (module @ '':'' @ t)))
       \<and> (result_of (build_userspace e cargo a fs) = Inr () \<longrightarrow>
            (\<forall>module \<in> set (mods a).
               Log (''User module '' @ module @ '' not found, skipping.'')
                 \<in> set (events_of (build_userspace e cargo a fs))
               \<or> (\<exists>d fl pre post.
                     events_of (build_userspace e cargo a fs)
                       = pre @ [Log (''Build user-module '' @ module),
                                Xargo d (USR_PATH e)
                                  ([''build'', ''--target'', USER_TARGET] @ cargo
                                     @ concat (map (\<lambda>f. [''--features'', f]) fl))] @ post
                     \<and> count_list fl t
                         = count_list (ufeatures a) t
                           + count_list (ufeatures a) (module @ '':'' @ t))))"
proof -
  let ?dflt = "[''build'', ''--target'', USER_TARGET] @ cargo"
  let ?run = "build_userspace e cargo a fs"
  have bu: "?run = for_each (build_module e ?dflt a) (mods a) fs"
    by (simp add: build_userspace_def)
  have 1: "\<exists>module \<in> set (mods a). \<exists>fl.
               argv = ?dflt @ concat (map (\<lambda>f. [''--features'', f]) fl)
               \<and> count_list fl t
                   = count_list (ufeatures a) t + count_list (ufeatures a) (module @ '':'' @ t)"
    if x: "Xargo d tp argv \<in> set (events_of ?run)" for d tp argv
  proof -
    from x obtain module fs1 where m: "module \<in> set (mods a)"
      and ev: "Xargo d tp argv \<in> set (fst (build_module e ?dflt a module fs1))"
      using for_each_events [of "Xargo d tp argv" "build_module e ?dflt a" "mods a" fs]
      by (auto simp: build_userspace_def)
    from build_module_xargo [OF ev]
    have "feature_args module ?dflt (ufeatures a) = Inr argv" by simp
    from feature_args_count [OF assms this] m show ?thesis by blast
  qed
  have 2: "Log (''User module '' @ module @ '' not found, skipping.'') \<in> set (events_of ?run)
           \<or> (\<exists>d fl pre post.
                 events_of ?run
                   = pre @ [Log (''Build user-module '' @ module),
                            Xargo d (USR_PATH e)
                              (?dflt @ concat (map (\<lambda>f. [''--features'', f]) fl))] @ post
                 \<and> count_list fl t
                     = count_list (ufeatures a) t
                       + count_list (ufeatures a) (module @ '':'' @ t))"
    if r: "result_of ?run = Inr ()" and m: "module \<in> set (mods a)" for module
  proof -
    from r bu have "for_each (build_module e ?dflt a) (mods a) fs
        = (events_of ?run, fs_of ?run, Inr ())"
      by (metis prod.collapse)
    from for_each_Inr_bodies [OF this m] obtain fs1 t1 fs2 u1 pre post where
      b: "build_module e ?dflt a module fs1 = (t1, fs2, Inr u1)"
      and t: "events_of ?run = pre @ t1 @ post"
      by blast
    from build_module_Inr [OF b] show ?thesis
    proof
      assume "t1 = [Log (''User module '' @ module @ '' not found, skipping.'')]"
      with t show ?thesis by simp
    next
      assume "\<exists>d argv. feature_args module ?dflt (ufeatures a) = Inr argv
               \<and> t1 = [Log (''Build user-module '' @ module), Xargo d (USR_PATH e) argv]"
      then obtain d argv where fa: "feature_args module ?dflt (ufeatures a) = Inr argv"
        and t1: "t1 = [Log (''Build user-module '' @ module), Xargo d (USR_PATH e) argv]"
        by blast
      from feature_args_count [OF assms fa] obtain fl where
        "argv = ?dflt @ concat (map (\<lambda>f. [''--features'', f]) fl)"
        "count_list fl t
           = count_list (ufeatures a) t + count_list (ufeatures a) (module @ '':'' @ t)"
        by blast
      with t t1 have "events_of ?run
                   = pre @ [Log (''Build user-module '' @ module),
                            Xargo d (USR_PATH e)
                              (?dflt @ concat (map (\<lambda>f. [''--features'', f]) fl))] @ post
                 \<and> count_list fl t
                     = count_list (ufeatures a) t
                       + count_list (ufeatures a) (module @ '':'' @ t)"
        by simp
      then show ?thesis by blast
    qed
  qed
  from 1 [unfolded append_assoc] 2 [unfolded append_assoc] show ?thesis by blast
qed

theorem bare_feature_in_every_module_build_witness:
  "CHR '':'' \<notin> set ''rumprt''
   \<and> Xargo [''repo'', ''usr'', ''init''] [''repo'', ''usr'']
        [''build'', ''--target'', ''x86_64-bespin-none'', ''--color'', ''always'',
         ''--features'', ''print-test'', ''--features'', ''rumprt'']
       \<in> set (events_of (build_userspace demo_env CARGO_DEFAULT_ARGS demo_args demo_fs))
   \<and> result_of (build_userspace demo_env CARGO_DEFAULT_ARGS demo_args demo_fs) = Inr ()
   \<and> ''init'' \<in> set (mods demo_args)
   \<and> count_list (ufeatures demo_args) ''rumprt''
       + count_list (ufeatures demo_args) (''init'' @ '':'' @ ''rumprt'') = 1
   \<and> (\<exists>module \<in> set (mods demo_args). \<exists>fl.
         [''build'', ''--target'', ''x86_64-bespin-none'', ''--color'', ''always'',
          ''--features'', ''print-test'', ''--features'', ''rumprt'']
           = [''build'', ''--target'', USER_TARGET] @ CARGO_DEFAULT_ARGS
               @ concat (map (\<lambda>f. [''--features'', f]) fl)
         \<and> count_list fl ''rumprt''
             = count_list (ufeatures demo_args) ''rumprt''
               + count_list (ufeatures demo_args) (module @ '':'' @ ''rumprt''))
   \<and> (\<exists>d fl pre post.
         events_of (build_userspace demo_env CARGO_DEFAULT_ARGS demo_args demo_fs)
           = pre @ [Log (''Build user-module '' @ ''init''),
                    Xargo d (USR_PATH demo_env)
                      ([''build'', ''--target'', USER_TARGET] @ CARGO_DEFAULT_ARGS
                         @ concat (map (\<lambda>f. [''--features'', f]) fl))] @ post
         \<and> count_list fl ''rumprt''
             = count_list (ufeatures demo_args) ''rumprt''
               + count_list (ufeatures demo_args) (''init'' @ '':'' @ ''rumprt''))"
proof -
  let ?run = "build_userspace demo_env CARGO_DEFAULT_ARGS demo_args demo_fs"
  have h1: "CHR '':'' \<notin> set ''rumprt''" by simp
  have h2: "Xargo [''repo'', ''usr'', ''init''] [''repo'', ''usr'']
        [''build'', ''--target'', ''x86_64-bespin-none'', ''--color'', ''always'',
         ''--features'', ''print-test'', ''--features'', ''rumprt'']
       \<in> set (events_of ?run)"
    by code_simp
  have h3: "result_of ?run = Inr ()" by code_simp
  have h4: "''init'' \<in> set (mods demo_args)" by (simp add: demo_args_def)
  have h5: "count_list (ufeatures demo_args) ''rumprt''
       + count_list (ufeatures demo_args) (''init'' @ '':'' @ ''rumprt'') = 1"
    by (simp add: demo_args_def)
  have n: "Log (''User module '' @ ''init'' @ '' not found, skipping.'') \<notin> set (events_of ?run)"
    by code_simp
  note th = bare_feature_in_every_module_build [OF h1, of demo_env CARGO_DEFAULT_ARGS demo_args demo_fs]
  from th h2 have c1: "\<exists>module \<in> set (mods demo_args). \<exists>fl.
         [''build'', ''--target'', ''x86_64-bespin-none'', ''--color'', ''always'',
          ''--features'', ''print-test'', ''--features'', ''rumprt'']
           = [''build'', ''--target'', USER_TARGET] @ CARGO_DEFAULT_ARGS
               @ concat (map (\<lambda>f. [''--features'', f]) fl)
         \<and> count_list fl ''rumprt''
             = count_list (ufeatures demo_args) ''rumprt''
               + count_list (ufeatures demo_args) (module @ '':'' @ ''rumprt'')"
    by blast
  from th h3 h4 n have c2: "\<exists>d fl pre post.
         events_of ?run
           = pre @ [Log (''Build user-module '' @ ''init''),
                    Xargo d (USR_PATH demo_env)
                      ([''build'', ''--target'', USER_TARGET] @ CARGO_DEFAULT_ARGS
                         @ concat (map (\<lambda>f. [''--features'', f]) fl))] @ post
         \<and> count_list fl ''rumprt''
             = count_list (ufeatures demo_args) ''rumprt''
               + count_list (ufeatures demo_args) (''init'' @ '':'' @ ''rumprt'')"
    by blast
  show ?thesis by (intro conjI h1 h2 h3 h4 h5 c1 c2)
qed

text \<open>
  The claim as it was stated fails when the list of user features holds the token
  \<open>rumprt\<close> once and the token \<open>init:rumprt\<close> as well, and when it holds the token
  \<open>rumprt\<close> twice: the build invocation of the module \<open>init\<close> then receives
  \<open>--features rumprt\<close> twice.
\<close>

theorem bare_feature_passed_twice:
  "CHR '':'' \<notin> set ''rumprt''
   \<and> count_list [''init:rumprt'', ''rumprt''] ''rumprt'' = 1
   \<and> events_of (build_userspace demo_env CARGO_DEFAULT_ARGS
        (demo_args\<lparr>ufeatures := [''init:rumprt'', ''rumprt'']\<rparr>) demo_fs)
       = [Log ''Build user-module init'',
          Xargo [''repo'', ''usr'', ''init''] [''repo'', ''usr'']
            [''build'', ''--target'', ''x86_64-bespin-none'', ''--color'', ''always'',
             ''--features'', ''rumprt'', ''--features'', ''rumprt'']]
   \<and> events_of (build_userspace demo_env CARGO_DEFAULT_ARGS
        (demo_args\<lparr>ufeatures := [''rumprt'', ''rumprt'']\<rparr>) demo_fs)
       = [Log ''Build user-module init'',
          Xargo [''repo'', ''usr'', ''init''] [''repo'', ''usr'']
            [''build'', ''--target'', ''x86_64-bespin-none'', ''--color'', ''always'',
             ''--features'', ''rumprt'', ''--features'', ''rumprt'']]"
proof -
  have h1: "CHR '':'' \<notin> set ''rumprt''" by simp
  have h2: "count_list [''init:rumprt'', ''rumprt''] ''rumprt'' = 1" by simp
  have h3: "events_of (build_userspace demo_env CARGO_DEFAULT_ARGS
        (demo_args\<lparr>ufeatures := [''init:rumprt'', ''rumprt'']\<rparr>) demo_fs)
       = [Log ''Build user-module init'',
          Xargo [''repo'', ''usr'', ''init''] [''repo'', ''usr'']
            [''build'', ''--target'', ''x86_64-bespin-none'', ''--color'', ''always'',
             ''--features'', ''rumprt'', ''--features'', ''rumprt'']]"
    by code_simp
  have h4: "events_of (build_userspace demo_env CARGO_DEFAULT_ARGS
        (demo_args\<lparr>ufeatures := [''rumprt'', ''rumprt'']\<rparr>) demo_fs)
       = [Log ''Build user-module init'',
          Xargo [''repo'', ''usr'', ''init''] [''repo'', ''usr'']
            [''build'', ''--target'', ''x86_64-bespin-none'', ''--color'', ''always'',
             ''--features'', ''rumprt'', ''--features'', ''rumprt'']]"
    by code_simp
  show ?thesis by (intro conjI h1 h2 h3 h4)
qed

lemma build_module_missing:
  "\<not> path_exists fs (joinpath (USR_PATH e) module) \<Longrightarrow>
     build_module e dflt a module fs
       = ([Log (''User module '' @ module @ '' not found, skipping.'')], fs, Inr ())"
  by (simp add: build_module_def log_def emit_def)

lemma build_module_bad_token:
  assumes "t \<in> set (ufeatures a)" and "2 \<le> count_list t CHR '':''"
    and "path_exists fs (joinpath (USR_PATH e) module)"
  shows "build_module e dflt a module fs = ([], fs, Inl ValueError)
         \<or> (build_module e dflt a module fs = ([], fs, Inl NotADirectoryError)
             \<and> is_file fs (joinpath (USR_PATH e) module))"
proof -
  let ?p = "joinpath (USR_PATH e) module"
  from assms(3) obtain q n where q: "walk fs [] ?p = Some q" and n: "lookup fs q = Some n"
    by (auto simp: path_exists_def stat_def split: option.splits)
  show ?thesis
  proof (cases n)
    case (File c)
    with q n assms(3) show ?thesis
      by (simp add: build_module_def rbind_def local_cwd_def is_file_def stat_def)
  next
    case Dir
    with q n assms(3) feature_args_many_colons [OF assms(1,2), of module dflt] show ?thesis
      by (simp add: build_module_def rbind_def local_cwd_def throw_def)
  qed
qed

lemma build_modules_abort:
  assumes "t \<in> set (ufeatures a)" and "2 \<le> count_list t CHR '':''"
  shows "\<exists>module \<in> set ms. path_exists fs (joinpath (USR_PATH e) module) \<Longrightarrow>
     \<exists>tr err. for_each (build_module e dflt a) ms fs = (tr, fs, Inl err)
       \<and> (err = ValueError
          \<or> err = NotADirectoryError \<and> (\<exists>m \<in> set ms. is_file fs (joinpath (USR_PATH e) m)))
       \<and> (\<forall>ev \<in> set tr. \<exists>msg. ev = Log msg)"
proof (induction ms)
  case Nil
  then show ?case by simp
next
  case (Cons module ms)
  show ?case
  proof (cases "path_exists fs (joinpath (USR_PATH e) module)")
    case True
    from build_module_bad_token [OF assms True, of dflt] show ?thesis
      by (auto simp: rbind_def)
  next
    case False
    with Cons.prems have "\<exists>module \<in> set ms. path_exists fs (joinpath (USR_PATH e) module)"
      by auto
    from Cons.IH [OF this] obtain tr err where
      r: "for_each (build_module e dflt a) ms fs = (tr, fs, Inl err)"
      and e: "err = ValueError
          \<or> err = NotADirectoryError \<and> (\<exists>m \<in> set ms. is_file fs (joinpath (USR_PATH e) m))"
      and l: "\<forall>ev \<in> set tr. \<exists>msg. ev = Log msg"
      by blast
    from r have "for_each (build_module e dflt a) (module # ms) fs
        = (Log (''User module '' @ module @ '' not found, skipping.'') # tr, fs, Inl err)"
      by (simp add: rbind_def build_module_missing [OF False])
    with e l show ?thesis by auto
  qed
qed

text \<open>
  Claim C10. When some token of \<open>ufeatures\<close> has two or more colons and the source
  directory of at least one selected module exists, the user-space build ends in an
  exception that nothing catches, before any \<open>xargo\<close> invocation and with the file
  system unchanged: the only events are the notices for modules that were skipped. The
  exception is the \<open>ValueError\<close> of the failed two-way split, unless the source path of
  a selected module is a regular file, which makes changing into it fail first.
\<close>

theorem second_colon_aborts_user_build:
  assumes "t \<in> set (ufeatures a)" and "2 \<le> count_list t CHR '':''"
    and "module \<in> set (mods a)" and "stat fs (joinpath (USR_PATH e) module) = Some Dir"
  shows "\<exists>tr err. build_userspace e cargo a fs = (tr, fs, Inl err)
           \<and> (err = ValueError
              \<or> err = NotADirectoryError
                 \<and> (\<exists>m \<in> set (mods a). is_file fs (joinpath (USR_PATH e) m)))
           \<and> (\<forall>ev \<in> set tr. \<exists>msg. ev = Log msg)"
proof -
  from assms(3,4) have "\<exists>module \<in> set (mods a). path_exists fs (joinpath (USR_PATH e) module)"
    by (auto simp: path_exists_def)
  from build_modules_abort [OF assms(1,2) this] show ?thesis
    by (simp add: build_userspace_def)
qed

theorem second_colon_aborts_user_build_witness:
  "''a:b:c'' \<in> set (ufeatures (demo_args\<lparr>ufeatures := [''rumprt'', ''a:b:c'']\<rparr>))
   \<and> 2 \<le> count_list ''a:b:c'' CHR '':''
   \<and> ''init'' \<in> set (mods (demo_args\<lparr>ufeatures := [''rumprt'', ''a:b:c'']\<rparr>))
   \<and> stat demo_fs (joinpath (USR_PATH demo_env) ''init'') = Some Dir
   \<and> build_userspace demo_env CARGO_DEFAULT_ARGS
        (demo_args\<lparr>ufeatures := [''rumprt'', ''a:b:c'']\<rparr>) demo_fs
      = ([], demo_fs, Inl ValueError)"
proof -
  let ?a = "demo_args\<lparr>ufeatures := [''rumprt'', ''a:b:c'']\<rparr>"
  have h1: "''a:b:c'' \<in> set (ufeatures ?a)" by simp
  have h2: "2 \<le> count_list ''a:b:c'' CHR '':''" by simp
  have h3: "''init'' \<in> set (mods ?a)" by (simp add: demo_args_def)
  have h4: "stat demo_fs (joinpath (USR_PATH demo_env) ''init'') = Some Dir" by code_simp
  have n: "\<not> is_file demo_fs (joinpath (USR_PATH demo_env) ''init'')" by code_simp
  from second_colon_aborts_user_build [OF h1 h2 h3 h4, of CARGO_DEFAULT_ARGS]
  obtain tr err where r: "build_userspace demo_env CARGO_DEFAULT_ARGS ?a demo_fs = (tr, demo_fs, Inl err)"
    and e: "err = ValueError \<or> err = NotADirectoryError
                 \<and> (\<exists>m \<in> set (mods ?a). is_file demo_fs (joinpath (USR_PATH demo_env) m))"
    and l: "\<forall>ev \<in> set tr. \<exists>msg. ev = Log msg"
    by blast
  from e n have "err = ValueError" by (simp add: demo_args_def)
  moreover have "fst (build_userspace demo_env CARGO_DEFAULT_ARGS ?a demo_fs) = []" by code_simp
  ultimately have "build_userspace demo_env CARGO_DEFAULT_ARGS ?a demo_fs = ([], demo_fs, Inl ValueError)"
    using r by simp
  with h1 h2 h3 h4 show ?thesis by blast
qed

subsection \<open>Emulator arguments\<close>




subsection \<open>Exit code 99\<close>

lemma rbind_starts:
  "\<exists>t. fst (m fs) = ev # t \<Longrightarrow> \<exists>t'. fst (rbind m f fs) = ev # t'"
  by (auto simp: rbind_def split: prod.splits sum.splits)

lemma build_bootloader_starts:
  "\<exists>t. fst (build_bootloader e c a fs) = Log ''Build bootloader'' # t"
  unfolding build_bootloader_def
  by (rule rbind_starts) (simp add: log_def emit_def)

lemma build_and_deploy_starts:
  "\<exists>t'. fst (build_and_deploy e a fs) = Log ''Build bootloader'' # t'"
  unfolding build_and_deploy_def Let_def
  by (rule rbind_starts) (rule build_bootloader_starts)

text \<open>
  Claim C2, amended. With a machine other than \<open>qemu\<close> and a QEMU option whose value
  line 295 takes for true, the script logs one line and exits with 99 before any stage:
  there is no event but the log line and the file system is untouched. With a machine
  other than \<open>qemu\<close> and no QEMU option supplied, the build stages and the deployment
  run first, beginning with the boot loader build; 99 is then the exit code of the run
  stage, reached only when the stages succeeded and \<open>--norun\<close> was not given. The
  statement does not cover a QEMU option that is supplied as \<open>0\<close> or as the empty
  string.
\<close>

theorem exit_99_before_or_after_build:
  "(machine a \<noteq> ''qemu'' \<and> qemu_flag_given a \<longrightarrow>
      main e a fs
        = ([Log ''Can't specify QEMU specific arguments for non-qemu hardware''], fs,
           Inl (SystemExit 99))
      \<and> exit_status (snd (snd (main e a fs))) = 99)
   \<and> (machine a \<noteq> ''qemu'' \<and> \<not> qemu_debug_cpu a \<and> \<not> qemu_monitor a
        \<and> qemu_settings a = None \<and> qemu_cores a = None \<and> qemu_nodes a = None \<longrightarrow>
        (\<exists>t'. fst (main e a fs) = Log ''Build bootloader'' # t')
        \<and> main e a fs
            = (case build_and_deploy e a fs of
                 (t, fs', Inl err) \<Rightarrow> (t, fs', Inl err)
               | (t, fs', Inr u) \<Rightarrow>
                   if norun a then (t, fs', Inr ())
                   else (t @ [Log (''Machine '' @ machine a @ '' not supported'')], fs',
                         Inl (SystemExit 99))))"
proof -
  have 1: "main e a fs
        = ([Log ''Can't specify QEMU specific arguments for non-qemu hardware''], fs,
           Inl (SystemExit 99))
      \<and> exit_status (snd (snd (main e a fs))) = 99"
    if "machine a \<noteq> ''qemu''" "qemu_flag_given a"
    using that by (simp add: main_def rbind_def log_def emit_def throw_def exit_status_def)
  have 0: "\<not> qemu_flag_given a"
    if "\<not> qemu_debug_cpu a \<and> \<not> qemu_monitor a
        \<and> qemu_settings a = None \<and> qemu_cores a = None \<and> qemu_nodes a = None"
    using that by (simp add: qemu_flag_given_def truthy_str_def truthy_int_def)
  have 2: "main e a fs
            = (case build_and_deploy e a fs of
                 (t, fs', Inl err) \<Rightarrow> (t, fs', Inl err)
               | (t, fs', Inr u) \<Rightarrow>
                   if norun a then (t, fs', Inr ())
                   else (t @ [Log (''Machine '' @ machine a @ '' not supported'')], fs',
                         Inl (SystemExit 99)))"
    if "machine a \<noteq> ''qemu''" "\<not> qemu_flag_given a"
    using that
    by (simp add: main_def run_def rbind_def log_def emit_def throw_def ret_def
        split: prod.splits sum.splits)
  have 3: "\<exists>t'. fst (main e a fs) = Log ''Build bootloader'' # t'"
    if "machine a \<noteq> ''qemu''" "\<not> qemu_flag_given a"
    using build_and_deploy_starts [of e a fs] 2 [OF that]
    by (auto split: prod.splits sum.splits)
  from 0 1 2 3 show ?thesis by blast
qed

theorem exit_99_before_or_after_build_witness:
  "machine (demo_args\<lparr>machine := ''hw'', qemu_monitor := True\<rparr>) \<noteq> ''qemu''
   \<and> qemu_flag_given (demo_args\<lparr>machine := ''hw'', qemu_monitor := True\<rparr>)
   \<and> main demo_env (demo_args\<lparr>machine := ''hw'', qemu_monitor := True\<rparr>) demo_fs
       = ([Log ''Can't specify QEMU specific arguments for non-qemu hardware''], demo_fs,
          Inl (SystemExit 99))
   \<and> machine (demo_args\<lparr>machine := ''hw''\<rparr>) \<noteq> ''qemu''
   \<and> \<not> qemu_debug_cpu (demo_args\<lparr>machine := ''hw''\<rparr>)
   \<and> \<not> qemu_monitor (demo_args\<lparr>machine := ''hw''\<rparr>)
   \<and> qemu_settings (demo_args\<lparr>machine := ''hw''\<rparr>) = None
   \<and> qemu_cores (demo_args\<lparr>machine := ''hw''\<rparr>) = None
   \<and> qemu_nodes (demo_args\<lparr>machine := ''hw''\<rparr>) = None
   \<and> (\<exists>t'. fst (main demo_env (demo_args\<lparr>machine := ''hw''\<rparr>) demo_fs)
             = Log ''Build bootloader'' # t')"
proof -
  let ?a1 = "demo_args\<lparr>machine := ''hw'', qemu_monitor := True\<rparr>"
  let ?a2 = "demo_args\<lparr>machine := ''hw''\<rparr>"
  have h1: "machine ?a1 \<noteq> ''qemu''" by simp
  have h2: "qemu_flag_given ?a1" by (simp add: qemu_flag_given_def)
  have h3: "machine ?a2 \<noteq> ''qemu''" by simp
  have h4: "\<not> qemu_debug_cpu ?a2" by (simp add: demo_args_def)
  have h5: "\<not> qemu_monitor ?a2" by (simp add: demo_args_def)
  have h6: "qemu_settings ?a2 = None" by (simp add: demo_args_def)
  have h7: "qemu_cores ?a2 = None" by (simp add: demo_args_def)
  have h8: "qemu_nodes ?a2 = None" by (simp add: demo_args_def)
  from exit_99_before_or_after_build [of ?a1 demo_env demo_fs] h1 h2
  have c1: "main demo_env ?a1 demo_fs
       = ([Log ''Can't specify QEMU specific arguments for non-qemu hardware''], demo_fs,
          Inl (SystemExit 99))"
    by blast
  from exit_99_before_or_after_build [of ?a2 demo_env demo_fs] h3 h4 h5 h6 h7 h8
  have c2: "\<exists>t'. fst (main demo_env ?a2 demo_fs) = Log ''Build bootloader'' # t'"
    by blast
  show ?thesis by (intro conjI h1 h2 h3 h4 h5 h6 h7 h8 c1 c2)
qed

text \<open>
  The claim as it was stated fails for an unsupported machine given without QEMU
  options: on the sample repository the script exits with 99 after \<open>xargo\<close> has been
  invoked and the kernel has been copied into the ESP directory.
\<close>

theorem unsupported_machine_is_built_first:
  "machine (demo_args\<lparr>machine := ''hw''\<rparr>) \<noteq> ''qemu''
   \<and> snd (snd (main demo_env (demo_args\<lparr>machine := ''hw''\<rparr>) demo_fs)) = Inl (SystemExit 99)
   \<and> Xargo [''repo'', ''bootloader''] [''repo'', ''bootloader'']
        [''build'', ''--target'', ''x86_64-uefi'', ''--package'', ''bootloader'',
         ''--color'', ''always'']
       \<in> set (fst (main demo_env (demo_args\<lparr>machine := ''hw''\<rparr>) demo_fs))
   \<and> lookup demo_fs [''repo'', ''target'', ''x86_64-uefi'', ''debug'', ''esp'', ''kernel''] = None
   \<and> lookup (fst (snd (main demo_env (demo_args\<lparr>machine := ''hw''\<rparr>) demo_fs)))
        [''repo'', ''target'', ''x86_64-uefi'', ''debug'', ''esp'', ''kernel'']
       = Some (File ''KERNEL'')"
proof -
  let ?a = "demo_args\<lparr>machine := ''hw''\<rparr>"
  have h1: "machine ?a \<noteq> ''qemu''" by simp
  have h2: "snd (snd (main demo_env ?a demo_fs)) = Inl (SystemExit 99)" by code_simp
  have h3: "Xargo [''repo'', ''bootloader''] [''repo'', ''bootloader'']
        [''build'', ''--target'', ''x86_64-uefi'', ''--package'', ''bootloader'',
         ''--color'', ''always'']
       \<in> set (fst (main demo_env ?a demo_fs))" by code_simp
  have h4: "lookup demo_fs [''repo'', ''target'', ''x86_64-uefi'', ''debug'', ''esp'', ''kernel'']
      = None" by code_simp
  have h5: "lookup (fst (snd (main demo_env ?a demo_fs)))
        [''repo'', ''target'', ''x86_64-uefi'', ''debug'', ''esp'', ''kernel'']
       = Some (File ''KERNEL'')" by code_simp
  show ?thesis by (intro conjI h1 h2 h3 h4 h5)
qed

subsection \<open>The file system\<close>

lemma map_of_filter_key:
  "map_of (filter (\<lambda>(q, n). P q) fs) p = (if P p then map_of fs p else None)"
  by (induction fs) auto

lemma lookup_write_file:
  "lookup (write_file p c fs) q =
     (if q = [] then Some Dir else if q = p then Some (File c) else lookup fs q)"
  by (simp add: lookup_def write_file_def map_of_filter_key)

lemma lookup_rmtree:
  "rmtree d fs = (t, fs', r) \<Longrightarrow>
     lookup fs' q = (if q = [] then Some Dir else if prefix d q then None else lookup fs q)"
  by (auto simp: rmtree_def lookup_def map_of_filter_key)

lemma open_write_Inr:
  "open_write p c fs = (t, fs', Inr u) \<Longrightarrow>
     fs' = write_file p c fs \<and> lookup fs p \<noteq> Some Dir \<and> lookup fs (butlast p) = Some Dir"
  by (auto simp: open_write_def split: if_splits option.splits node.splits)

lemma write_text_Inr:
  "write_text e p s fs = (t, fs', Inr u) \<Longrightarrow>
     fs' = write_file p s fs \<and> text_encodable e s \<and> lookup fs p \<noteq> Some Dir
     \<and> lookup fs (butlast p) = Some Dir"
  by (auto simp: write_text_def split: if_splits option.splits node.splits)

lemma copy2_Inr:
  "copy2 src name dst fs = (t, fs', Inr u) \<Longrightarrow>
     \<exists>c. lookup fs src = Some (File c)
       \<and> fs' = write_file (if lookup fs dst = Some Dir then dst @ [name] else dst) c fs
       \<and> lookup fs (if lookup fs dst = Some Dir then dst @ [name] else dst) \<noteq> Some Dir"
  by (auto simp: copy2_def Let_def dest: open_write_Inr split: if_splits option.splits node.splits)

lemma os_getcwd_Inr:
  "os_getcwd e removed fs = (t, fs', Inr cwd) \<Longrightarrow>
     fs' = fs \<and> cwd = start_cwd e \<and> \<not> removed \<and> lookup fs cwd = Some Dir"
  by (auto simp: os_getcwd_def split: if_splits)

lemma mkdir_from_lookup:
  "mkdir_from cur cs fs = Inr fs' \<Longrightarrow>
     lookup fs' q = lookup fs q
     \<or> (lookup fs q = None \<and> lookup fs' q = Some Dir
         \<and> strict_prefix cur q \<and> prefix q (cur @ cs))"
proof (induction cur cs fs arbitrary: fs' rule: mkdir_from.induct)
  case (1 cur fs)
  then show ?case by simp
next
  case (2 cur c cs fs)
  let ?d = "cur @ [c]"
  show ?case
  proof (cases "lookup fs ?d")
    case None
    with 2(3) have e: "mkdir_from ?d cs ((?d, Dir) # fs) = Inr fs'" by simp
    note ih = 2(1) [OF None e]
    show ?thesis
    proof (cases "q = ?d")
      case True
      have "lookup ((?d, Dir) # fs) ?d = Some Dir" by (simp add: lookup_def)
      with ih True have "lookup fs' q = Some Dir" by auto
      with None True show ?thesis by (auto simp: strict_prefix_def)
    next
      case False
      then have "lookup ((?d, Dir) # fs) q = lookup fs q" by (simp add: lookup_def)
      with ih show ?thesis
        by (auto simp: strict_prefix_def prefix_def)
    qed
  next
    case (Some n)
    with 2(3) have n: "n = Dir" by (cases n) auto
    with Some 2(3) have e: "mkdir_from ?d cs fs = Inr fs'" by simp
    from 2(2) [OF Some n e] show ?thesis
      by (auto simp: strict_prefix_def prefix_def)
  qed
qed

lemma mkdir_from_dirs:
  "mkdir_from cur cs fs = Inr fs' \<Longrightarrow> 0 < i \<Longrightarrow> i \<le> length cs \<Longrightarrow>
     lookup fs' (cur @ take i cs) = Some Dir"
proof (induction cur cs fs arbitrary: fs' i rule: mkdir_from.induct)
  case (1 cur fs)
  then show ?case by simp
next
  case (2 cur c cs fs)
  let ?d = "cur @ [c]"
  obtain fs1 where e: "mkdir_from ?d cs fs1 = Inr fs'" and d: "lookup fs1 ?d = Some Dir"
    and ih: "\<And>j. 0 < j \<Longrightarrow> j \<le> length cs \<Longrightarrow> lookup fs' (?d @ take j cs) = Some Dir"
  proof (cases "lookup fs ?d")
    case None
    with "2.prems"(1) have e: "mkdir_from ?d cs ((?d, Dir) # fs) = Inr fs'" by simp
    have "lookup ((?d, Dir) # fs) ?d = Some Dir" by (simp add: lookup_def)
    with e 2(1) [OF None e] that show ?thesis by blast
  next
    case (Some n)
    with "2.prems"(1) have n: "n = Dir" by (cases n) auto
    with Some "2.prems"(1) have e: "mkdir_from ?d cs fs = Inr fs'" by simp
    with Some n 2(2) [OF Some n e] that show ?thesis by blast
  qed
  show ?case
  proof (cases "i = 1")
    case True
    from mkdir_from_lookup [OF e, of ?d] d have "lookup fs' ?d = Some Dir" by auto
    with True show ?thesis by simp
  next
    case False
    with "2.prems"(2) obtain j where j: "i = Suc j" "0 < j" by (cases i) auto
    with "2.prems"(3) have "j \<le> length cs" by simp
    from ih [OF j(2) this] j show ?thesis by simp
  qed
qed

lemma mkdir_parents_Inr:
  "mkdir_parents p fs = (t, fs', Inr u) \<Longrightarrow>
     (\<forall>i. 0 < i \<and> i \<le> length p \<longrightarrow> lookup fs' (take i p) = Some Dir)
     \<and> (\<forall>q. lookup fs' q = lookup fs q
            \<or> (lookup fs q = None \<and> lookup fs' q = Some Dir \<and> prefix q p))"
proof -
  assume "mkdir_parents p fs = (t, fs', Inr u)"
  then have e: "mkdir_from [] p fs = Inr fs'"
    by (auto simp: mkdir_parents_def split: sum.splits)
  from mkdir_from_dirs [OF e] mkdir_from_lookup [OF e] show ?thesis
    by (metis append_Nil)
qed

subsection \<open>Deployment\<close>

lemma deploy_layout_Inr:
  assumes "deploy_layout e a fs = (t, fs', Inr u)"
  shows "\<exists>fs1 fs2 fs3 fs4 fs5 t3 t4 t5 t6.
      fs1 = (if lookup fs (esp_path e a) = Some Dir
             then filter (\<lambda>(q, n). \<not> prefix (esp_path e a) q) fs else fs)
    \<and> mkdir_from [] (esp_boot_path e a) fs1 = Inr fs2
    \<and> \<not> (lookup fs (esp_path e a) = Some Dir \<and> prefix (esp_path e a) (start_cwd e))
    \<and> lookup fs2 (start_cwd e) = Some Dir
    \<and> copy2 (kernel_build_path e a @ [''bespin'']) ''bespin'' (start_cwd e) fs2 = (t3, fs3, Inr ())
    \<and> copy2 (kernel_build_path e a @ [''bespin'']) ''bespin'' (esp_path e a @ [''kernel'']) fs3
        = (t4, fs4, Inr ())
    \<and> copy2 (uefi_build_path e a @ [''bootloader.efi'']) ''bootloader.efi''
          (esp_boot_path e a @ [''BootX64.efi'']) fs4 = (t5, fs5, Inr ())
    \<and> write_text e (esp_path e a @ [''cmdline.in'']) (''./kernel '' @ format_opt (cmd a)) fs5
        = (t6, fs', Inr ())"
  apply (insert assms [unfolded deploy_layout_def])
  apply (drule rbind_Inr, clarsimp simp: log_def emit_def)
  apply (drule rbind_Inr, clarsimp simp: ret_def)
  apply (drule rbind_Inr, clarsimp)
  apply (drule rbind_Inr, clarsimp)
  apply (drule rbind_Inr, clarsimp)
  apply (drule rbind_Inr, clarsimp)
  apply (drule rbind_Inr, clarsimp)
  apply (drule rbind_Inr, clarsimp)
  apply (auto simp: rmtree_def ret_def mkdir_parents_def dest!: os_getcwd_Inr
         split: if_splits sum.splits)
  done

lemma esp_path_eq: "esp_path e a = TARGET_PATH e @ [UEFI_TARGET, debug_release a, ''esp'']"
  by (simp add: esp_path_def uefi_build_path_def)

lemma user_build_path_eq: "user_build_path e a = TARGET_PATH e @ [USER_TARGET, debug_release a]"
  by (simp add: user_build_path_def)

lemma targets_differ: "UEFI_TARGET \<noteq> USER_TARGET"
  by (simp add: UEFI_TARGET_def USER_TARGET_def ARCH_def)

lemma esp_path_not_Nil: "esp_path e a \<noteq> []"
  by (simp add: esp_path_eq)

lemma esp_not_prefix_user: "\<not> prefix (esp_path e a) (user_build_path e a @ xs)"
  by (simp add: esp_path_eq user_build_path_eq targets_differ)

lemma esp_entry_not_user_entry: "esp_path e a @ [x] \<noteq> user_build_path e a @ [y]"
  by (simp add: esp_path_eq user_build_path_eq)

lemma joinpath_rkapps: "joinpath p ''rkapps'' = p @ [''rkapps'']"
  by (simp add: joinpath_def path_parts_def)

lemma lookup_Nil: "lookup fs [] = Some Dir"
  by (simp add: lookup_def)

lemma lookup_write_file_if:
  "lookup (write_file p c fs) q = (if q = p \<and> p \<noteq> [] then Some (File c) else lookup fs q)"
  by (simp add: lookup_write_file lookup_Nil)

lemma for_each_Inr_inv:
  assumes "for_each body xs fs = (t, fs', Inr u)" and "J fs"
    and "\<And>x fs1 t1 fs2 u1. x \<in> set xs \<Longrightarrow> J fs1 \<Longrightarrow> body x fs1 = (t1, fs2, Inr u1) \<Longrightarrow> J fs2"
  shows "J fs'"
  using assms
proof (induction xs arbitrary: fs t)
  case Nil
  then show ?case by (simp add: ret_def)
next
  case (Cons x xs)
  from Cons.prems(1) obtain t1 fs1 u1 t2 where
    b: "body x fs = (t1, fs1, Inr u1)" and r: "for_each body xs fs1 = (t2, fs', Inr u)"
    by (auto dest!: rbind_Inr)
  from Cons.prems(3) [OF _ Cons.prems(2) b] have j: "J fs1" by simp
  show ?case
  proof (rule Cons.IH [OF r j])
    fix y fs1 t1 fs2 u1
    assume "y \<in> set xs" "J fs1" "body y fs1 = (t1, fs2, Inr u1)"
    then show "J fs2" using Cons.prems(3) [of y fs1 t1 fs2 u1] by simp
  qed
qed

lemma copy2_into_dir:
  assumes "copy2 src name dst fs = (t, fs', Inr u)" and "lookup fs dst = Some Dir"
  shows "\<exists>c. lookup fs src = Some (File c) \<and> fs' = write_file (dst @ [name]) c fs"
  using copy2_Inr [OF assms(1)] assms(2) by auto

lemma copy_apps_Inr:
  assumes "for_each (\<lambda>app. copy2 app (last app) dst) apps fs = (t, fs', Inr u)"
    and "lookup fs dst = Some Dir" and "\<forall>app \<in> set apps. \<exists>n. app = d @ [n]" and "d \<noteq> dst"
  shows "lookup fs' q =
           (if q \<in> (\<lambda>app. dst @ [last app]) ` set apps then lookup fs (d @ [last q])
            else lookup fs q)"
  using assms(1,2,3)
proof (induction apps arbitrary: fs t)
  case Nil
  then show ?case by (simp add: ret_def)
next
  case (Cons app apps)
  from Cons.prems(1) obtain t1 fs1 u1 t2 where
    b: "copy2 app (last app) dst fs = (t1, fs1, Inr u1)"
    and r: "for_each (\<lambda>app. copy2 app (last app) dst) apps fs1 = (t2, fs', Inr u)"
    by (auto dest!: rbind_Inr)
  from copy2_into_dir [OF b Cons.prems(2)] obtain c where
    c: "lookup fs app = Some (File c)" and fs1: "fs1 = write_file (dst @ [last app]) c fs"
    by blast
  from Cons.prems(3) obtain n where n: "app = d @ [n]" by auto
  have l1: "lookup fs1 p = (if p = dst @ [n] then Some (File c) else lookup fs p)" for p
    using fs1 n by (simp add: lookup_write_file_if)
  from l1 [of dst] Cons.prems(2) have d1: "lookup fs1 dst = Some Dir" by simp
  from Cons.prems(3) have "\<forall>app \<in> set apps. \<exists>n. app = d @ [n]" by simp
  note ih = Cons.IH [OF r d1 this]
  have src: "lookup fs1 (d @ [x]) = lookup fs (d @ [x])" for x
    using l1 [of "d @ [x]"] assms(4) by auto
  show ?case
  proof (cases "q \<in> (\<lambda>app. dst @ [last app]) ` set apps")
    case True
    with ih src show ?thesis by auto
  next
    case False
    with ih have "lookup fs' q = lookup fs1 q" by simp
    with False l1 [of q] c n show ?thesis by auto
  qed
qed

lemma open_write_keeps_dirs:
  "open_write p c fs = (t, fs', r) \<Longrightarrow> lookup fs q = Some Dir \<Longrightarrow> lookup fs' q = Some Dir"
  by (auto simp: open_write_def lookup_write_file_if split: if_splits option.splits node.splits)

lemma write_text_keeps_dirs:
  "write_text e p s fs = (t, fs', r) \<Longrightarrow> lookup fs q = Some Dir \<Longrightarrow> lookup fs' q = Some Dir"
  by (auto simp: write_text_def lookup_write_file_if split: if_splits option.splits node.splits)

lemma copy2_keeps_dirs:
  "copy2 src name dst fs = (t, fs', r) \<Longrightarrow> lookup fs q = Some Dir \<Longrightarrow> lookup fs' q = Some Dir"
  by (auto simp: copy2_def Let_def dest: open_write_keeps_dirs
      split: if_splits option.splits node.splits)

lemma glob_bin_mem:
  "q \<in> set (filter (is_file_entry fs) (glob_bin fs d))
     \<longleftrightarrow> (\<exists>n. q = d @ [n] \<and> suffix ''.bin'' n \<and> is_file_entry fs (d @ [n]))"
proof
  assume "q \<in> set (filter (is_file_entry fs) (glob_bin fs d))"
  then have f: "q \<noteq> []" "butlast q = d" "suffix ''.bin'' (last q)" "is_file_entry fs q"
    by (auto simp: glob_bin_def)
  have e: "d @ [last q] = q"
    using f(1,2) append_butlast_last_id [of q] by simp
  show "\<exists>n. q = d @ [n] \<and> suffix ''.bin'' n \<and> is_file_entry fs (d @ [n])"
  proof (intro exI [of _ "last q"] conjI)
    show "q = d @ [last q]" by (rule e [symmetric])
    show "suffix ''.bin'' (last q)" by (rule f(3))
    show "is_file_entry fs (d @ [last q])" unfolding e by (rule f(4))
  qed
next
  assume "\<exists>n. q = d @ [n] \<and> suffix ''.bin'' n \<and> is_file_entry fs (d @ [n])"
  then obtain n where n: "q = d @ [n]" "suffix ''.bin'' n" "is_file_entry fs (d @ [n])" by blast
  from n(3) obtain c where "map_of fs (d @ [n]) = Some (File c)"
    by (auto simp: is_file_entry_def lookup_def split: option.splits node.splits)
  then have "(d @ [n], File c) \<in> set fs" by (rule map_of_SomeD)
  then have "d @ [n] \<in> set (glob_bin fs d)"
    using n(2) by (force simp: glob_bin_def)
  with n(1,3) show "q \<in> set (filter (is_file_entry fs) (glob_bin fs d))" by simp
qed

lemma deploy_module_other:
  assumes "deploy_module e a m fs = (t, fs', Inr u)" and "m \<noteq> ''rkapps''"
    and "lookup fs (esp_path e a) = Some Dir"
  shows "fs' = fs
         \<or> (\<exists>c. fs' = write_file (esp_path e a @ [last (joinpath (user_build_path e a) m)]) c fs
                \<and> lookup fs (esp_path e a @ [last (joinpath (user_build_path e a) m)]) \<noteq> Some Dir)"
proof (cases "is_file fs (joinpath (user_build_path e a) m)")
  case False
  with assms(1) show ?thesis by (simp add: deploy_module_def ret_def)
next
  case True
  then obtain q where q: "walk fs [] (joinpath (user_build_path e a) m) = Some q"
    by (auto simp: is_file_def stat_def split: option.splits)
  with True assms(1,2) have
    "copy2 q (last (joinpath (user_build_path e a) m)) (esp_path e a) fs = (t, fs', Inr u)"
    by (simp add: deploy_module_def)
  from copy2_Inr [OF this] assms(3) show ?thesis by auto
qed

lemma deploy_module_rkapps:
  assumes "deploy_module e a ''rkapps'' fs = (t, fs', Inr u)"
    and "lookup fs (esp_path e a) = Some Dir"
  shows "(\<not> is_file fs (user_build_path e a @ [''rkapps'']) \<longrightarrow> fs' = fs)
         \<and> (is_file fs (user_build_path e a @ [''rkapps'']) \<longrightarrow>
              (\<forall>q. lookup fs' q =
                 (if \<exists>n. q = esp_path e a @ [n] \<and> suffix ''.bin'' n
                          \<and> is_file_entry fs (user_build_path e a @ [n])
                  then lookup fs (user_build_path e a @ [last q]) else lookup fs q)))"
proof (cases "is_file fs (user_build_path e a @ [''rkapps''])")
  case False
  with assms(1) show ?thesis by (simp add: deploy_module_def ret_def joinpath_rkapps)
next
  case True
  let ?apps = "filter (is_file_entry fs) (glob_bin fs (user_build_path e a))"
  from True assms(1) have
    r: "for_each (\<lambda>app. copy2 app (last app) (esp_path e a)) ?apps fs = (t, fs', Inr u)"
    by (simp add: deploy_module_def joinpath_rkapps)
  have a: "\<forall>app \<in> set ?apps. \<exists>n. app = user_build_path e a @ [n]"
    using glob_bin_mem [of _ fs "user_build_path e a"] by blast
  have d: "user_build_path e a \<noteq> esp_path e a"
    by (simp add: esp_path_eq user_build_path_eq)
  have img: "q \<in> (\<lambda>app. esp_path e a @ [last app]) ` set ?apps
      \<longleftrightarrow> (\<exists>n. q = esp_path e a @ [n] \<and> suffix ''.bin'' n
                \<and> is_file_entry fs (user_build_path e a @ [n]))" for q
  proof
    assume "q \<in> (\<lambda>app. esp_path e a @ [last app]) ` set ?apps"
    then obtain app where app: "app \<in> set ?apps" "q = esp_path e a @ [last app]" by blast
    from app(1) obtain n where "app = user_build_path e a @ [n]" "suffix ''.bin'' n"
      "is_file_entry fs (user_build_path e a @ [n])"
      using glob_bin_mem [of app fs "user_build_path e a"] by blast
    with app(2) show "\<exists>n. q = esp_path e a @ [n] \<and> suffix ''.bin'' n
                \<and> is_file_entry fs (user_build_path e a @ [n])" by auto
  next
    assume "\<exists>n. q = esp_path e a @ [n] \<and> suffix ''.bin'' n
                \<and> is_file_entry fs (user_build_path e a @ [n])"
    then obtain n where n: "q = esp_path e a @ [n]" "suffix ''.bin'' n"
      "is_file_entry fs (user_build_path e a @ [n])" by blast
    then have "user_build_path e a @ [n] \<in> set ?apps"
      using glob_bin_mem [of "user_build_path e a @ [n]" fs "user_build_path e a"] by blast
    then have "esp_path e a @ [last (user_build_path e a @ [n])]
        \<in> (\<lambda>app. esp_path e a @ [last app]) ` set ?apps" by (rule imageI)
    with n(1) show "q \<in> (\<lambda>app. esp_path e a @ [last app]) ` set ?apps" by simp
  qed
  from copy_apps_Inr [OF r assms(2) a d] True show ?thesis
    by (simp only: img) simp
qed

lemma for_each_inv:
  assumes "for_each body xs fs = (t, fs', r)" and "J fs"
    and "\<And>x fs1 t1 fs2 r1. x \<in> set xs \<Longrightarrow> J fs1 \<Longrightarrow> body x fs1 = (t1, fs2, r1) \<Longrightarrow> J fs2"
  shows "J fs'"
  using assms
proof (induction xs arbitrary: fs t fs' r)
  case Nil
  then show ?case by (simp add: ret_def)
next
  case (Cons x xs)
  obtain t1 fs1 r1 where b: "body x fs = (t1, fs1, r1)" by (cases "body x fs") auto
  from Cons.prems(3) [OF _ Cons.prems(2) b] have j: "J fs1" by simp
  show ?case
  proof (cases r1)
    case (Inl err)
    with b Cons.prems(1) have "fs' = fs1" by (simp add: rbind_def)
    with j show ?thesis by simp
  next
    case (Inr u1)
    obtain t2 fs2 r2 where c: "for_each body xs fs1 = (t2, fs2, r2)"
      by (cases "for_each body xs fs1") auto
    with b Inr Cons.prems(1) have "fs' = fs2" by (simp add: rbind_def)
    moreover have "J fs2"
    proof (rule Cons.IH [OF c j])
      fix y fs1 t1 fs2 r1
      assume "y \<in> set xs" "J fs1" "body y fs1 = (t1, fs2, r1)"
      then show "J fs2" using Cons.prems(3) [of y fs1 t1 fs2 r1] by simp
    qed
    ultimately show ?thesis by simp
  qed
qed

lemma deploy_module_keeps_dirs:
  assumes "deploy_module e a m fs = (t, fs', r)" and "lookup fs q = Some Dir"
  shows "lookup fs' q = Some Dir"
proof (cases "is_file fs (joinpath (user_build_path e a) m)")
  case False
  with assms show ?thesis by (simp add: deploy_module_def ret_def)
next
  case True
  show ?thesis
  proof (cases "m = ''rkapps''")
    case False
    from True obtain p where p: "walk fs [] (joinpath (user_build_path e a) m) = Some p"
      by (auto simp: is_file_def stat_def split: option.splits)
    with True False assms(1) have
      "copy2 p (last (joinpath (user_build_path e a) m)) (esp_path e a) fs = (t, fs', r)"
      by (simp add: deploy_module_def)
    from copy2_keeps_dirs [OF this assms(2)] show ?thesis .
  next
    case rk: True
    let ?apps = "filter (is_file_entry fs) (glob_bin fs (user_build_path e a))"
    from True rk assms(1) have
      r: "for_each (\<lambda>app. copy2 app (last app) (esp_path e a)) ?apps fs = (t, fs', r)"
      by (simp add: deploy_module_def)
    show ?thesis
      by (rule for_each_inv [OF r, where J = "\<lambda>fs. lookup fs q = Some Dir"])
         (auto intro: assms(2) copy2_keeps_dirs)
  qed
qed

lemma deploy_module_changes:
  assumes "deploy_module e a m fs = (t, fs', Inr u)" and "lookup fs (esp_path e a) = Some Dir"
  shows "lookup fs' q = lookup fs q \<or> module_entry e [m] a q"
proof (cases "m = ''rkapps''")
  case False
  from deploy_module_other [OF assms(1) False assms(2)] False show ?thesis
    by (auto simp: lookup_write_file_if module_entry_def)
next
  case True
  with deploy_module_rkapps [of e a fs t fs' u] assms
  have "fs' = fs \<or> (\<forall>q. lookup fs' q =
                 (if \<exists>n. q = esp_path e a @ [n] \<and> suffix ''.bin'' n
                          \<and> is_file_entry fs (user_build_path e a @ [n])
                  then lookup fs (user_build_path e a @ [last q]) else lookup fs q))"
    by blast
  then show ?thesis
  proof
    assume "fs' = fs"
    then show ?thesis by simp
  next
    assume c: "\<forall>q. lookup fs' q =
                 (if \<exists>n. q = esp_path e a @ [n] \<and> suffix ''.bin'' n
                          \<and> is_file_entry fs (user_build_path e a @ [n])
                  then lookup fs (user_build_path e a @ [last q]) else lookup fs q)"
    show ?thesis
    proof (cases "\<exists>n. q = esp_path e a @ [n] \<and> suffix ''.bin'' n")
      case True
      with \<open>m = ''rkapps''\<close> have "module_entry e [m] a q"
        by (auto simp: module_entry_def)
      then show ?thesis ..
    next
      case False
      with c have "lookup fs' q = lookup fs q" by auto
      then show ?thesis ..
    qed
  qed
qed

lemma module_entry_mono:
  "module_entry e [m] a q \<Longrightarrow> m \<in> set ms \<Longrightarrow> module_entry e ms a q"
  by (auto simp: module_entry_def)

lemma deploy_modules_changes:
  assumes "for_each (deploy_module e a) ms fs = (t, fs', Inr u)"
    and "lookup fs (esp_path e a) = Some Dir"
  shows "lookup fs' (esp_path e a) = Some Dir
         \<and> (\<forall>q. lookup fs' q = lookup fs q \<or> module_entry e ms a q)"
proof (rule for_each_Inr_inv [OF assms(1),
    where J = "\<lambda>fs1. lookup fs1 (esp_path e a) = Some Dir
         \<and> (\<forall>q. lookup fs1 q = lookup fs q \<or> module_entry e ms a q)"])
  show "lookup fs (esp_path e a) = Some Dir
         \<and> (\<forall>q. lookup fs q = lookup fs q \<or> module_entry e ms a q)"
    using assms(2) by simp
next
  fix m fs1 t1 fs2 u1
  assume m: "m \<in> set ms"
    and j: "lookup fs1 (esp_path e a) = Some Dir
         \<and> (\<forall>q. lookup fs1 q = lookup fs q \<or> module_entry e ms a q)"
    and b: "deploy_module e a m fs1 = (t1, fs2, Inr u1)"
  from j have d: "lookup fs1 (esp_path e a) = Some Dir" by simp
  have "lookup fs2 q = lookup fs q \<or> module_entry e ms a q" for q
    using deploy_module_changes [OF b d, of q] j module_entry_mono [OF _ m, of e a q] by auto
  with deploy_module_keeps_dirs [OF b d]
  show "lookup fs2 (esp_path e a) = Some Dir
         \<and> (\<forall>q. lookup fs2 q = lookup fs q \<or> module_entry e ms a q)"
    by simp
qed

lemma result_collapse: "result_of x = r \<Longrightarrow> x = (events_of x, fs_of x, r)"
  by (cases x) auto

lemma esp_boot_path_eq: "esp_boot_path e a = esp_path e a @ [''EFI'', ''Boot'']"
  by (simp add: esp_boot_path_def)

lemma deploy_layout_cmdline:
  assumes "deploy_layout e a fs = (t, fs', Inr u)"
  shows "lookup fs' (esp_path e a @ [''cmdline.in''])
           = Some (File (''./kernel '' @ format_opt (cmd a)))
         \<and> lookup fs' (esp_path e a) = Some Dir"
proof -
  from deploy_layout_Inr [OF assms] obtain fs1 fs2 fs3 fs4 fs5 t3 t4 t5 t6 where
    mk: "mkdir_from [] (esp_boot_path e a) fs1 = Inr fs2"
    and c3: "copy2 (kernel_build_path e a @ [''bespin'']) ''bespin'' (start_cwd e) fs2
              = (t3, fs3, Inr ())"
    and c4: "copy2 (kernel_build_path e a @ [''bespin'']) ''bespin'' (esp_path e a @ [''kernel''])
              fs3 = (t4, fs4, Inr ())"
    and c5: "copy2 (uefi_build_path e a @ [''bootloader.efi'']) ''bootloader.efi''
              (esp_boot_path e a @ [''BootX64.efi'']) fs4 = (t5, fs5, Inr ())"
    and ow: "write_text e (esp_path e a @ [''cmdline.in'']) (''./kernel '' @ format_opt (cmd a)) fs5
              = (t6, fs', Inr ())"
    by blast
  from mkdir_from_dirs [OF mk, of "length (esp_path e a)"]
  have "lookup fs2 (esp_path e a) = Some Dir"
    by (simp add: esp_boot_path_eq esp_path_not_Nil)
  from copy2_keeps_dirs [OF c3 this] have "lookup fs3 (esp_path e a) = Some Dir" .
  from copy2_keeps_dirs [OF c4 this] have "lookup fs4 (esp_path e a) = Some Dir" .
  from copy2_keeps_dirs [OF c5 this] have "lookup fs5 (esp_path e a) = Some Dir" .
  from write_text_keeps_dirs [OF ow this] have d: "lookup fs' (esp_path e a) = Some Dir" .
  from write_text_Inr [OF ow] have "fs' = write_file (esp_path e a @ [''cmdline.in''])
      (''./kernel '' @ format_opt (cmd a)) fs5" by simp
  then have "lookup fs' (esp_path e a @ [''cmdline.in''])
           = Some (File (''./kernel '' @ format_opt (cmd a)))"
    by (simp add: lookup_write_file_if)
  with d show ?thesis by simp
qed

lemma deploy_Inr:
  assumes "deploy e a fs = (t, fs', Inr u)"
  shows "\<exists>t1 fs1 t2. deploy_layout e a fs = (t1, fs1, Inr ())
           \<and> for_each (deploy_module e a) (mods a) fs1 = (t2, fs', Inr u)"
  using rbind_Inr [OF assms [unfolded deploy_def]] by auto

lemma below_esp_boot:
  assumes "strict_prefix p q" and "prefix q (p @ [x, y])"
  shows "q = p @ [x] \<or> q = p @ [x, y]"
proof -
  from assms(1) obtain zs where q: "q = p @ zs" and z: "zs \<noteq> []"
    by (auto simp: strict_prefix_def prefix_def)
  with assms(2) have "prefix zs [x, y]" by simp
  with z have "zs = [x] \<or> zs = [x, y]"
    by (cases zs) (auto simp: prefix_Cons split: list.splits)
  with q show ?thesis by auto
qed

lemma deploy_layout_entries:
  assumes "deploy_layout e a fs = (t, fs', Inr u)" and "lookup fs (esp_path e a) = Some Dir"
    and "strict_prefix (esp_path e a) q" and "lookup fs' q \<noteq> None"
  shows "layout_entry e a q"
proof -
  let ?esp = "esp_path e a"
  let ?boot = "esp_boot_path e a"
  from deploy_layout_Inr [OF assms(1)] assms(2) obtain fs2 fs3 fs4 fs5 t3 t4 t5 t6 where
    mk: "mkdir_from [] ?boot (filter (\<lambda>(q, n). \<not> prefix ?esp q) fs) = Inr fs2"
    and cwd: "\<not> prefix ?esp (start_cwd e)" "lookup fs2 (start_cwd e) = Some Dir"
    and c3: "copy2 (kernel_build_path e a @ [''bespin'']) ''bespin'' (start_cwd e) fs2
              = (t3, fs3, Inr ())"
    and c4: "copy2 (kernel_build_path e a @ [''bespin'']) ''bespin'' (?esp @ [''kernel''])
              fs3 = (t4, fs4, Inr ())"
    and c5: "copy2 (uefi_build_path e a @ [''bootloader.efi'']) ''bootloader.efi''
              (?boot @ [''BootX64.efi'']) fs4 = (t5, fs5, Inr ())"
    and ow: "write_text e (?esp @ [''cmdline.in'']) (''./kernel '' @ format_opt (cmd a)) fs5
              = (t6, fs', Inr ())"
    by auto
  have l2: "lookup fs2 p = None \<or> prefix p ?boot" if "prefix ?esp p" for p
  proof -
    from that have "p \<noteq> []" using esp_path_not_Nil [of e a] by auto
    with that have "lookup (filter (\<lambda>(q, n). \<not> prefix ?esp q) fs) p = None"
      by (simp add: lookup_def map_of_filter_key)
    with mkdir_from_lookup [OF mk, of p] show ?thesis by auto
  qed
  from copy2_into_dir [OF c3 cwd(2)] obtain k where
    fs3: "fs3 = write_file (start_cwd e @ [''bespin'']) k fs2" by blast
  have n3: "p \<noteq> start_cwd e @ [''bespin'']" if "strict_prefix ?esp p" for p
  proof
    assume "p = start_cwd e @ [''bespin'']"
    with that have "prefix ?esp (start_cwd e)"
      by (auto simp: strict_prefix_def prefix_snoc)
    with cwd(1) show False by simp
  qed
  have l3: "lookup fs3 p = lookup fs2 p" if "strict_prefix ?esp p" for p
    using n3 [OF that] fs3 by (simp add: lookup_write_file_if)
  have k3: "lookup fs3 (?esp @ [''kernel'']) = None"
    using l3 [of "?esp @ [''kernel'']"] l2 [of "?esp @ [''kernel'']"]
    by (auto simp: esp_boot_path_eq strict_prefix_def)
  with copy2_Inr [OF c4] obtain k' where
    fs4: "fs4 = write_file (?esp @ [''kernel'']) k' fs3" by auto
  have b4: "lookup fs4 (?boot @ [''BootX64.efi'']) = None"
    using l3 [of "?boot @ [''BootX64.efi'']"] l2 [of "?boot @ [''BootX64.efi'']"] fs4
    by (auto simp: esp_boot_path_eq lookup_write_file_if strict_prefix_def)
  with copy2_Inr [OF c5] obtain b where
    fs5: "fs5 = write_file (?boot @ [''BootX64.efi'']) b fs4" by auto
  from write_text_Inr [OF ow] have
    fs': "fs' = write_file (?esp @ [''cmdline.in'']) (''./kernel '' @ format_opt (cmd a)) fs5"
    by simp
  show ?thesis
  proof (cases "q = ?esp @ [''cmdline.in''] \<or> q = ?boot @ [''BootX64.efi'']
                \<or> q = ?esp @ [''kernel'']")
    case True
    then show ?thesis by (auto simp: layout_entry_def)
  next
    case False
    with fs' fs5 fs4 have "lookup fs' q = lookup fs3 q"
      by (simp add: lookup_write_file_if)
    with l3 [OF assms(3)] assms(4) have "lookup fs2 q \<noteq> None" by simp
    with l2 [of q] assms(3) have "prefix q ?boot" by (auto simp: strict_prefix_def)
    with below_esp_boot [OF assms(3), of "''EFI''" "''Boot''"]
    show ?thesis by (auto simp: layout_entry_def esp_boot_path_eq)
  qed
qed

lemma deploy_layout_wipe:
  assumes "lookup fs (esp_path e a) = Some Dir"
  shows "deploy_layout e a fs
           = deploy_layout e a ((esp_path e a, Dir)
               # filter (\<lambda>(q, n). \<not> prefix (esp_path e a) q) fs)"
proof -
  let ?fs = "(esp_path e a, Dir) # filter (\<lambda>(q, n). \<not> prefix (esp_path e a) q) fs"
  have 1: "lookup ?fs (esp_path e a) = Some Dir"
    by (simp add: lookup_def)
  have 2: "filter (\<lambda>(q, n). \<not> prefix (esp_path e a) q) ?fs
             = filter (\<lambda>(q, n). \<not> prefix (esp_path e a) q) fs"
    by (simp add: case_prod_unfold)
  show ?thesis
    unfolding deploy_layout_def
    by (simp add: rbind_def log_def emit_def ret_def rmtree_def assms 1 2 del: filter.simps)
qed

lemma walk_plain:
  "''..'' \<notin> set p \<Longrightarrow>
     walk fs cur p
       = (if \<forall>i < length p. lookup fs (cur @ take i p) = Some Dir then Some (cur @ p) else None)"
proof (induction p arbitrary: cur)
  case Nil
  then show ?case by simp
next
  case (Cons c cs)
  from Cons.prems have c: "c \<noteq> ''..''" and cs: "''..'' \<notin> set cs" by auto
  have "(\<forall>i < length (c # cs). lookup fs (cur @ take i (c # cs)) = Some Dir)
        \<longleftrightarrow> lookup fs cur = Some Dir
            \<and> (\<forall>i < length cs. lookup fs ((cur @ [c]) @ take i cs) = Some Dir)"
  proof
    assume a: "\<forall>i < length (c # cs). lookup fs (cur @ take i (c # cs)) = Some Dir"
    from a [rule_format, of 0] have "lookup fs cur = Some Dir" by simp
    moreover have "lookup fs ((cur @ [c]) @ take i cs) = Some Dir" if "i < length cs" for i
      using a [rule_format, of "Suc i"] that by simp
    ultimately show "lookup fs cur = Some Dir
            \<and> (\<forall>i < length cs. lookup fs ((cur @ [c]) @ take i cs) = Some Dir)" by blast
  next
    assume b: "lookup fs cur = Some Dir
            \<and> (\<forall>i < length cs. lookup fs ((cur @ [c]) @ take i cs) = Some Dir)"
    show "\<forall>i < length (c # cs). lookup fs (cur @ take i (c # cs)) = Some Dir"
    proof (intro allI impI)
      fix i
      assume "i < length (c # cs)"
      with b show "lookup fs (cur @ take i (c # cs)) = Some Dir"
        by (cases i) auto
    qed
  qed
  with c Cons.IH [OF cs, of "cur @ [c]"] show ?case by simp
qed

lemma is_file_plain:
  "''..'' \<notin> set p \<Longrightarrow>
     is_file fs p \<longleftrightarrow> (\<forall>i < length p. lookup fs (take i p) = Some Dir)
                        \<and> (\<exists>c. lookup fs p = Some (File c))"
  by (auto simp: is_file_def stat_def walk_plain split: option.splits node.splits)

lemma is_file_kept:
  assumes "''..'' \<notin> set p" and "is_file fs p"
    and "\<And>i. i < length p \<Longrightarrow> lookup fs (take i p) = Some Dir \<Longrightarrow> lookup fs' (take i p) = Some Dir"
    and "lookup fs' p = lookup fs p"
  shows "is_file fs' p"
  using assms by (simp add: is_file_plain)

lemma user_build_path_plain:
  "''..'' \<notin> set (script_path e) \<Longrightarrow> ''..'' \<notin> set (user_build_path e a @ [''rkapps''])"
  by (auto simp: user_build_path_eq TARGET_PATH_def repo_root_def USER_TARGET_def ARCH_def
      debug_release_def dest: in_set_butlastD)

lemma esp_not_prefix_user_take: "\<not> prefix (esp_path e a) (take i (user_build_path e a @ xs))"
proof
  assume "prefix (esp_path e a) (take i (user_build_path e a @ xs))"
  then have "prefix (esp_path e a) (user_build_path e a @ xs)"
    using take_is_prefix [of i "user_build_path e a @ xs"] by (rule prefix_order.trans)
  with esp_not_prefix_user show False by blast
qed

lemma deploy_layout_frame:
  assumes "deploy_layout e a fs = (t, fs', Inr u)" and "\<not> prefix (esp_path e a) q"
  shows "(lookup fs q = Some Dir \<longrightarrow> lookup fs' q = Some Dir)
         \<and> (q \<noteq> start_cwd e @ [''bespin''] \<longrightarrow>
               (lookup fs' q = Some (File c) \<longleftrightarrow> lookup fs q = Some (File c)))"
proof -
  let ?esp = "esp_path e a"
  let ?boot = "esp_boot_path e a"
  from deploy_layout_Inr [OF assms(1)] obtain fs1 fs2 fs3 fs4 fs5 t3 t4 t5 t6 where
    fs1: "fs1 = (if lookup fs ?esp = Some Dir
             then filter (\<lambda>(q, n). \<not> prefix ?esp q) fs else fs)"
    and mk: "mkdir_from [] ?boot fs1 = Inr fs2"
    and cwd: "lookup fs2 (start_cwd e) = Some Dir"
    and c3: "copy2 (kernel_build_path e a @ [''bespin'']) ''bespin'' (start_cwd e) fs2
              = (t3, fs3, Inr ())"
    and c4: "copy2 (kernel_build_path e a @ [''bespin'']) ''bespin'' (?esp @ [''kernel''])
              fs3 = (t4, fs4, Inr ())"
    and c5: "copy2 (uefi_build_path e a @ [''bootloader.efi'']) ''bootloader.efi''
              (?boot @ [''BootX64.efi'']) fs4 = (t5, fs5, Inr ())"
    and ow: "write_text e (?esp @ [''cmdline.in'']) (''./kernel '' @ format_opt (cmd a)) fs5
              = (t6, fs', Inr ())"
    by blast
  have l1: "lookup fs1 q = lookup fs q"
    using fs1 assms(2) by (simp add: lookup_def map_of_filter_key)
  have l2: "lookup fs2 q = lookup fs1 q \<or> (lookup fs1 q = None \<and> lookup fs2 q = Some Dir)"
    using mkdir_from_lookup [OF mk, of q] by auto
  have dirs: "lookup fs' q = Some Dir" if "lookup fs q = Some Dir"
  proof -
    from that l1 l2 have "lookup fs2 q = Some Dir" by auto
    from copy2_keeps_dirs [OF c3 this] have "lookup fs3 q = Some Dir" .
    from copy2_keeps_dirs [OF c4 this] have "lookup fs4 q = Some Dir" .
    from copy2_keeps_dirs [OF c5 this] have "lookup fs5 q = Some Dir" .
    from write_text_keeps_dirs [OF ow this] show ?thesis .
  qed
  have files: "lookup fs' q = Some (File c) \<longleftrightarrow> lookup fs q = Some (File c)"
    if ne: "q \<noteq> start_cwd e @ [''bespin'']"
  proof -
    from copy2_into_dir [OF c3 cwd] obtain k where
      "fs3 = write_file (start_cwd e @ [''bespin'']) k fs2" by blast
    with ne have l3: "lookup fs3 q = lookup fs2 q" by (simp add: lookup_write_file_if)
    from copy2_Inr [OF c4] obtain k' where
      "fs4 = write_file (if lookup fs3 (?esp @ [''kernel'']) = Some Dir
                         then (?esp @ [''kernel'']) @ [''bespin''] else ?esp @ [''kernel'']) k' fs3"
      by blast
    with assms(2) have l4: "lookup fs4 q = lookup fs3 q"
      by (auto simp: lookup_write_file_if)
    from copy2_Inr [OF c5] obtain b where
      "fs5 = write_file (if lookup fs4 (?boot @ [''BootX64.efi'']) = Some Dir
                         then (?boot @ [''BootX64.efi'']) @ [''bootloader.efi'']
                         else ?boot @ [''BootX64.efi'']) b fs4"
      by blast
    with assms(2) have l5: "lookup fs5 q = lookup fs4 q"
      by (auto simp: lookup_write_file_if esp_boot_path_eq)
    from write_text_Inr [OF ow] assms(2) have l6: "lookup fs' q = lookup fs5 q"
      by (auto simp: lookup_write_file_if)
    from l1 l2 l3 l4 l5 l6 show ?thesis by auto
  qed
  from dirs files show ?thesis by blast
qed

lemma module_entry_below_esp: "module_entry e ms a q \<Longrightarrow> prefix (esp_path e a) q"
proof -
  assume "module_entry e ms a q"
  then consider x where "q = esp_path e a @ [x]" | "q \<noteq> []" "butlast q = esp_path e a"
    by (auto simp: module_entry_def)
  then show ?thesis
  proof cases
    case 1
    then show ?thesis by simp
  next
    case 2
    then have "q = esp_path e a @ [last q]"
      using append_butlast_last_id [of q] by simp
    then show ?thesis by (metis prefixI)
  qed
qed

lemma deploy_module_user_entries:
  assumes "deploy_module e a m fs = (t, fs', Inr u)" and "lookup fs (esp_path e a) = Some Dir"
  shows "lookup fs' (user_build_path e a @ [x]) = lookup fs (user_build_path e a @ [x])"
  using deploy_module_changes [OF assms, of "user_build_path e a @ [x]"]
    module_entry_below_esp [of e "[m]" a "user_build_path e a @ [x]"] esp_not_prefix_user [of e a "[x]"]
  by blast

lemma deploy_layout_encodable:
  assumes "deploy_layout e a fs = (t, fs', Inr u)"
  shows "text_encodable e (''./kernel '' @ format_opt (cmd a))"
proof -
  from deploy_layout_Inr [OF assms] obtain fs5 t6 where
    "write_text e (esp_path e a @ [''cmdline.in'']) (''./kernel '' @ format_opt (cmd a)) fs5
        = (t6, fs', Inr ())"
    by blast
  from write_text_Inr [OF this] show ?thesis by simp
qed

lemma walk_mono:
  assumes "\<And>q. lookup fs q = Some Dir \<Longrightarrow> lookup fs' q = Some Dir"
  shows "walk fs cur p = Some r \<Longrightarrow> walk fs' cur p = Some r"
proof (induction p arbitrary: cur)
  case Nil
  then show ?case by simp
next
  case (Cons c cs)
  from Cons.prems have d: "lookup fs cur = Some Dir"
    by (cases "lookup fs cur = Some Dir") simp_all
  from assms [OF d] have d': "lookup fs' cur = Some Dir" .
  show ?case
  proof (cases "c = ''..''")
    case True
    with Cons.prems d have "walk fs (butlast cur) cs = Some r" by simp
    from Cons.IH [OF this] True d' show ?thesis by simp
  next
    case False
    with Cons.prems d have "walk fs (cur @ [c]) cs = Some r" by simp
    from Cons.IH [OF this] False d' show ?thesis by simp
  qed
qed

lemma is_file_mono:
  assumes "is_file fs p"
    and "\<And>q. lookup fs q = Some Dir \<Longrightarrow> lookup fs' q = Some Dir"
    and "\<And>q c. lookup fs q = Some (File c) \<Longrightarrow> \<exists>c'. lookup fs' q = Some (File c')"
  shows "is_file fs' p"
proof -
  from assms(1) obtain r c where w: "walk fs [] p = Some r" and l: "lookup fs r = Some (File c)"
    by (auto simp: is_file_def stat_def split: option.splits node.splits)
  from walk_mono [of fs fs', OF assms(2) w] have w': "walk fs' [] p = Some r" .
  from assms(3) [OF l] obtain c' where "lookup fs' r = Some (File c')" by blast
  with w' show ?thesis by (simp add: is_file_def stat_def)
qed

lemma deploy_module_other_file:
  assumes "deploy_module e a m fs = (t, fs', Inr u)" and "m \<noteq> ''rkapps''"
    and "lookup fs (esp_path e a) = Some Dir"
  shows "fs' = fs
         \<or> (is_file fs (joinpath (user_build_path e a) m)
            \<and> (\<exists>c. fs' = write_file (esp_path e a @ [last (joinpath (user_build_path e a) m)]) c fs))"
proof (cases "is_file fs (joinpath (user_build_path e a) m)")
  case False
  with assms(1) show ?thesis by (simp add: deploy_module_def ret_def)
next
  case True
  with deploy_module_other [OF assms] show ?thesis by blast
qed

lemma deploy_module_keeps_files:
  assumes "deploy_module e a m fs = (t, fs', Inr u)" and "lookup fs (esp_path e a) = Some Dir"
    and "lookup fs q = Some (File c)"
  shows "\<exists>c'. lookup fs' q = Some (File c')"
proof (cases "m = ''rkapps''")
  case False
  from deploy_module_other [OF assms(1) False assms(2)] assms(3) show ?thesis
    by (auto simp: lookup_write_file_if)
next
  case True
  note rk = deploy_module_rkapps [OF assms(1) [unfolded True] assms(2)]
  show ?thesis
  proof (cases "is_file fs (user_build_path e a @ [''rkapps''])")
    case False
    with rk assms(3) show ?thesis by simp
  next
    case f: True
    with rk have l: "lookup fs' q =
        (if \<exists>n. q = esp_path e a @ [n] \<and> suffix ''.bin'' n
                 \<and> is_file_entry fs (user_build_path e a @ [n])
         then lookup fs (user_build_path e a @ [last q]) else lookup fs q)"
      by blast
    show ?thesis
    proof (cases "\<exists>n. q = esp_path e a @ [n] \<and> suffix ''.bin'' n
                 \<and> is_file_entry fs (user_build_path e a @ [n])")
      case True
      then obtain n where n: "q = esp_path e a @ [n]"
        "is_file_entry fs (user_build_path e a @ [n])" by blast
      from n(2) obtain k where "lookup fs (user_build_path e a @ [n]) = Some (File k)"
        by (auto simp: is_file_entry_def split: option.splits node.splits)
      with l True n(1) show ?thesis by simp
    next
      case False
      with l assms(3) show ?thesis by simp
    qed
  qed
qed

lemma deploy_module_is_file_mono:
  assumes "deploy_module e a m fs = (t, fs', Inr u)" and "lookup fs (esp_path e a) = Some Dir"
    and "is_file fs p"
  shows "is_file fs' p"
proof (rule is_file_mono [OF assms(3)])
  fix q
  assume "lookup fs q = Some Dir"
  then show "lookup fs' q = Some Dir" by (rule deploy_module_keeps_dirs [OF assms(1)])
next
  fix q c
  assume "lookup fs q = Some (File c)"
  then show "\<exists>c'. lookup fs' q = Some (File c')" by (rule deploy_module_keeps_files [OF assms(1,2)])
qed

lemma deploy_module_written:
  assumes b: "deploy_module e a m fs1 = (t1, fs2, Inr u1)"
    and d: "lookup fs1 (esp_path e a) = Some Dir"
  shows "lookup fs2 q = lookup fs1 q
         \<or> (m \<noteq> ''rkapps'' \<and> q = esp_path e a @ [last (joinpath (user_build_path e a) m)]
             \<and> is_file fs2 (joinpath (user_build_path e a) m))
         \<or> (m = ''rkapps'' \<and> is_file fs2 (user_build_path e a @ [''rkapps''])
             \<and> (\<exists>n. q = esp_path e a @ [n] \<and> suffix ''.bin'' n
                   \<and> is_file_entry fs1 (user_build_path e a @ [n])))"
proof (cases "m = ''rkapps''")
  case False
  from deploy_module_other_file [OF b False d] show ?thesis
  proof
    assume "fs2 = fs1"
    then show ?thesis by simp
  next
    assume w: "is_file fs1 (joinpath (user_build_path e a) m)
            \<and> (\<exists>c. fs2 = write_file (esp_path e a @ [last (joinpath (user_build_path e a) m)]) c fs1)"
    then have f: "is_file fs2 (joinpath (user_build_path e a) m)"
      using deploy_module_is_file_mono [OF b d] by blast
    from w obtain c where
      "fs2 = write_file (esp_path e a @ [last (joinpath (user_build_path e a) m)]) c fs1"
      by blast
    then have "lookup fs2 q = lookup fs1 q
        \<or> q = esp_path e a @ [last (joinpath (user_build_path e a) m)]"
      by (simp add: lookup_write_file_if)
    with f False show ?thesis by blast
  qed
next
  case True
  note rk = deploy_module_rkapps [OF b [unfolded True] d]
  show ?thesis
  proof (cases "is_file fs1 (user_build_path e a @ [''rkapps''])")
    case False
    with rk show ?thesis by simp
  next
    case f: True
    from deploy_module_is_file_mono [OF b d f]
    have f2: "is_file fs2 (user_build_path e a @ [''rkapps''])" .
    from rk f have l: "lookup fs2 q =
        (if \<exists>n. q = esp_path e a @ [n] \<and> suffix ''.bin'' n
                 \<and> is_file_entry fs1 (user_build_path e a @ [n])
         then lookup fs1 (user_build_path e a @ [last q]) else lookup fs1 q)"
      by blast
    show ?thesis
    proof (cases "\<exists>n. q = esp_path e a @ [n] \<and> suffix ''.bin'' n
                 \<and> is_file_entry fs1 (user_build_path e a @ [n])")
      case c: True
      from True f2 c show ?thesis by blast
    next
      case False
      with l show ?thesis by simp
    qed
  qed
qed

lemma deploy_modules_written:
  assumes "for_each (deploy_module e a) ms fs = (t, fs', Inr u)"
    and "lookup fs (esp_path e a) = Some Dir"
  shows "(\<forall>x. lookup fs' (user_build_path e a @ [x]) = lookup fs (user_build_path e a @ [x]))
         \<and> (\<forall>q. lookup fs' q = lookup fs q
              \<or> (\<exists>m \<in> set ms. m \<noteq> ''rkapps''
                    \<and> q = esp_path e a @ [last (joinpath (user_build_path e a) m)]
                    \<and> is_file fs' (joinpath (user_build_path e a) m))
              \<or> (''rkapps'' \<in> set ms \<and> is_file fs' (user_build_path e a @ [''rkapps''])
                  \<and> (\<exists>n. q = esp_path e a @ [n] \<and> suffix ''.bin'' n
                        \<and> is_file_entry fs (user_build_path e a @ [n]))))"
  using assms
proof (induction ms arbitrary: fs t)
  case Nil
  then show ?case by (simp add: ret_def)
next
  case (Cons m ms)
  from Cons.prems(1) obtain t1 fs1 u1 t2 where
    b: "deploy_module e a m fs = (t1, fs1, Inr u1)"
    and r: "for_each (deploy_module e a) ms fs1 = (t2, fs', Inr u)"
    by (auto dest!: rbind_Inr)
  note d = Cons.prems(2)
  from deploy_module_keeps_dirs [OF b d] have d1: "lookup fs1 (esp_path e a) = Some Dir" .
  note ih = Cons.IH [OF r d1]
  have ue1: "lookup fs1 (user_build_path e a @ [x]) = lookup fs (user_build_path e a @ [x])" for x
    by (rule deploy_module_user_entries [OF b d])
  from ih have ue2: "lookup fs' (user_build_path e a @ [x]) = lookup fs1 (user_build_path e a @ [x])"
    for x by blast
  have fe: "is_file_entry fs1 (user_build_path e a @ [x])
      \<longleftrightarrow> is_file_entry fs (user_build_path e a @ [x])" for x
    by (simp add: is_file_entry_def ue1)
  have mono: "is_file fs' p" if "is_file fs1 p" for p
  proof -
    let ?J = "\<lambda>fs2. lookup fs2 (esp_path e a) = Some Dir \<and> is_file fs2 p"
    have "?J fs'"
    proof (rule for_each_Inr_inv [OF r, where J = ?J])
      show "?J fs1" using d1 that by simp
    next
      fix x fs2 t3 fs3 u3
      assume "x \<in> set ms" and j: "?J fs2" and b3: "deploy_module e a x fs2 = (t3, fs3, Inr u3)"
      from j have d2: "lookup fs2 (esp_path e a) = Some Dir" and f2: "is_file fs2 p"
        by simp_all
      from deploy_module_keeps_dirs [OF b3 d2] deploy_module_is_file_mono [OF b3 d2 f2]
      show "?J fs3" by simp
    qed
    then show ?thesis by simp
  qed
  have 1: "lookup fs' (user_build_path e a @ [x]) = lookup fs (user_build_path e a @ [x])" for x
    using ue1 [of x] ue2 [of x] by simp
  have 2: "lookup fs' q = lookup fs q
              \<or> (\<exists>m' \<in> set (m # ms). m' \<noteq> ''rkapps''
                    \<and> q = esp_path e a @ [last (joinpath (user_build_path e a) m')]
                    \<and> is_file fs' (joinpath (user_build_path e a) m'))
              \<or> (''rkapps'' \<in> set (m # ms) \<and> is_file fs' (user_build_path e a @ [''rkapps''])
                  \<and> (\<exists>n. q = esp_path e a @ [n] \<and> suffix ''.bin'' n
                        \<and> is_file_entry fs (user_build_path e a @ [n])))" for q
  proof -
    from ih have
      "lookup fs' q = lookup fs1 q
         \<or> (\<exists>m' \<in> set ms. m' \<noteq> ''rkapps''
               \<and> q = esp_path e a @ [last (joinpath (user_build_path e a) m')]
               \<and> is_file fs' (joinpath (user_build_path e a) m'))
         \<or> (''rkapps'' \<in> set ms \<and> is_file fs' (user_build_path e a @ [''rkapps''])
             \<and> (\<exists>n. q = esp_path e a @ [n] \<and> suffix ''.bin'' n
                   \<and> is_file_entry fs1 (user_build_path e a @ [n])))"
      by blast
    then consider (same) "lookup fs' q = lookup fs1 q"
      | (other) "\<exists>m' \<in> set ms. m' \<noteq> ''rkapps''
               \<and> q = esp_path e a @ [last (joinpath (user_build_path e a) m')]
               \<and> is_file fs' (joinpath (user_build_path e a) m')"
      | (rk) "''rkapps'' \<in> set ms \<and> is_file fs' (user_build_path e a @ [''rkapps''])
             \<and> (\<exists>n. q = esp_path e a @ [n] \<and> suffix ''.bin'' n
                   \<and> is_file_entry fs1 (user_build_path e a @ [n]))"
      by blast
    then show ?thesis
    proof cases
      case same
      from deploy_module_written [OF b d, of q]
      consider (s1) "lookup fs1 q = lookup fs q"
        | (o1) "m \<noteq> ''rkapps'' \<and> q = esp_path e a @ [last (joinpath (user_build_path e a) m)]
             \<and> is_file fs1 (joinpath (user_build_path e a) m)"
        | (r1) "m = ''rkapps'' \<and> is_file fs1 (user_build_path e a @ [''rkapps''])
             \<and> (\<exists>n. q = esp_path e a @ [n] \<and> suffix ''.bin'' n
                   \<and> is_file_entry fs (user_build_path e a @ [n]))"
        by blast
      then show ?thesis
      proof cases
        case s1
        with same show ?thesis by simp
      next
        case o1
        then have "is_file fs' (joinpath (user_build_path e a) m)" using mono by blast
        with o1 have "\<exists>m' \<in> set (m # ms). m' \<noteq> ''rkapps''
                    \<and> q = esp_path e a @ [last (joinpath (user_build_path e a) m')]
                    \<and> is_file fs' (joinpath (user_build_path e a) m')"
          by simp
        then show ?thesis by blast
      next
        case r1
        then have "is_file fs' (user_build_path e a @ [''rkapps''])" using mono by blast
        with r1 have "''rkapps'' \<in> set (m # ms) \<and> is_file fs' (user_build_path e a @ [''rkapps''])
                  \<and> (\<exists>n. q = esp_path e a @ [n] \<and> suffix ''.bin'' n
                        \<and> is_file_entry fs (user_build_path e a @ [n]))"
          by simp
        then show ?thesis by blast
      qed
    next
      case other
      then have "\<exists>m' \<in> set (m # ms). m' \<noteq> ''rkapps''
                    \<and> q = esp_path e a @ [last (joinpath (user_build_path e a) m')]
                    \<and> is_file fs' (joinpath (user_build_path e a) m')"
        by auto
      then show ?thesis by blast
    next
      case rk
      with fe have "''rkapps'' \<in> set (m # ms) \<and> is_file fs' (user_build_path e a @ [''rkapps''])
                  \<and> (\<exists>n. q = esp_path e a @ [n] \<and> suffix ''.bin'' n
                        \<and> is_file_entry fs (user_build_path e a @ [n]))"
        by simp
      then show ?thesis by blast
    qed
  qed
  from 1 2 show ?case by blast
qed

lemma deploy_modules_rk_copied:
  assumes "for_each (deploy_module e a) ms fs = (t, fs', Inr u)"
    and "lookup fs (esp_path e a) = Some Dir"
    and "''rkapps'' \<in> set ms" and "is_file fs (user_build_path e a @ [''rkapps''])"
    and "suffix ''.bin'' n" and "lookup fs (user_build_path e a @ [n]) = Some (File c)"
  shows "lookup fs' (esp_path e a @ [n]) = Some (File c)
         \<or> (\<exists>m \<in> set ms. m \<noteq> ''rkapps'' \<and> last (joinpath (user_build_path e a) m) = n
               \<and> is_file fs' (joinpath (user_build_path e a) m))"
  using assms(1,2,3,4,6)
proof (induction ms arbitrary: fs t)
  case Nil
  then show ?case by simp
next
  case (Cons m ms)
  from Cons.prems(1) obtain t1 fs1 u1 t2 where
    b: "deploy_module e a m fs = (t1, fs1, Inr u1)"
    and r: "for_each (deploy_module e a) ms fs1 = (t2, fs', Inr u)"
    by (auto dest!: rbind_Inr)
  note d = Cons.prems(2)
  from deploy_module_keeps_dirs [OF b d] have d1: "lookup fs1 (esp_path e a) = Some Dir" .
  from deploy_module_is_file_mono [OF b d Cons.prems(4)]
  have f1: "is_file fs1 (user_build_path e a @ [''rkapps''])" .
  from deploy_module_user_entries [OF b d, of n] Cons.prems(5)
  have n1: "lookup fs1 (user_build_path e a @ [n]) = Some (File c)" by simp
  show ?case
  proof (cases "''rkapps'' \<in> set ms")
    case True
    from Cons.IH [OF r d1 True f1 n1] show ?thesis by auto
  next
    case False
    with Cons.prems(3) have m: "m = ''rkapps''" by simp
    from Cons.prems(5) have e: "is_file_entry fs (user_build_path e a @ [n])"
      by (simp add: is_file_entry_def)
    from deploy_module_rkapps [OF b [unfolded m] d] Cons.prems(4)
    have "lookup fs1 (esp_path e a @ [n])
        = (if \<exists>n'. esp_path e a @ [n] = esp_path e a @ [n'] \<and> suffix ''.bin'' n'
                          \<and> is_file_entry fs (user_build_path e a @ [n'])
           then lookup fs (user_build_path e a @ [last (esp_path e a @ [n])])
           else lookup fs (esp_path e a @ [n]))"
      by blast
    with e assms(5) Cons.prems(5) have c1: "lookup fs1 (esp_path e a @ [n]) = Some (File c)"
      by auto
    from deploy_modules_written [OF r d1] have
      "lookup fs' (esp_path e a @ [n]) = lookup fs1 (esp_path e a @ [n])
       \<or> (\<exists>m \<in> set ms. m \<noteq> ''rkapps''
             \<and> esp_path e a @ [n] = esp_path e a @ [last (joinpath (user_build_path e a) m)]
             \<and> is_file fs' (joinpath (user_build_path e a) m))
       \<or> ''rkapps'' \<in> set ms"
      by blast
    with c1 False show ?thesis by auto
  qed
qed
subsection \<open>The command line descriptor\<close>

text \<open>
  Claim C7, amended. For every command line string given with \<open>--cmd\<close>, a deployment
  that succeeds, which it does only if the encoding of the locale can encode the
  string, has written \<open>cmdline.in\<close> in the ESP directory with exactly the text
  \<open>./kernel\<close>, one space, and the string as it was given, no character changed: this
  is the content after lines 162 to 187, and it is the content after the whole of
  \<open>deploy\<close> unless a selected module other than \<open>rkapps\<close> has a binary, a regular file,
  that is itself named \<open>cmdline.in\<close>, which the loop over the modules copies to the
  same place.
\<close>

theorem cmdline_descriptor_content:
  assumes "cmd a = Some c" and "result_of (deploy e a fs) = Inr ()"
  shows "text_encodable e (''./kernel '' @ c)
         \<and> result_of (deploy_layout e a fs) = Inr ()
         \<and> lookup (fs_of (deploy_layout e a fs)) (esp_path e a @ [''cmdline.in''])
             = Some (File (''./kernel '' @ c))
         \<and> (lookup (fs_of (deploy e a fs)) (esp_path e a @ [''cmdline.in''])
               = Some (File (''./kernel '' @ c))
            \<or> (\<exists>m \<in> set (mods a). m \<noteq> ''rkapps''
                  \<and> last (joinpath (user_build_path e a) m) = ''cmdline.in''
                  \<and> is_file (fs_of (deploy e a fs)) (joinpath (user_build_path e a) m)))"
proof -
  from deploy_Inr [OF result_collapse [OF assms(2)]] obtain t1 fs1 t2 where
    l: "deploy_layout e a fs = (t1, fs1, Inr ())"
    and m: "for_each (deploy_module e a) (mods a) fs1 = (t2, fs_of (deploy e a fs), Inr ())"
    by blast
  from deploy_layout_encodable [OF l] assms(1) have
    enc: "text_encodable e (''./kernel '' @ c)"
    by (simp add: format_opt_def)
  from deploy_layout_cmdline [OF l] assms(1) have
    c: "lookup fs1 (esp_path e a @ [''cmdline.in'']) = Some (File (''./kernel '' @ c))"
    and d: "lookup fs1 (esp_path e a) = Some Dir"
    by (simp_all add: format_opt_def)
  have s: "\<not> suffix ''.bin'' ''cmdline.in''"
    by (simp add: suffix_to_prefix)
  from deploy_modules_written [OF m d] have
    "lookup (fs_of (deploy e a fs)) (esp_path e a @ [''cmdline.in''])
       = lookup fs1 (esp_path e a @ [''cmdline.in''])
     \<or> (\<exists>m \<in> set (mods a). m \<noteq> ''rkapps''
           \<and> esp_path e a @ [''cmdline.in'']
               = esp_path e a @ [last (joinpath (user_build_path e a) m)]
           \<and> is_file (fs_of (deploy e a fs)) (joinpath (user_build_path e a) m))
     \<or> (\<exists>n. esp_path e a @ [''cmdline.in''] = esp_path e a @ [n] \<and> suffix ''.bin'' n)"
    by blast
  with c s have "lookup (fs_of (deploy e a fs)) (esp_path e a @ [''cmdline.in''])
               = Some (File (''./kernel '' @ c))
            \<or> (\<exists>m \<in> set (mods a). m \<noteq> ''rkapps''
                  \<and> last (joinpath (user_build_path e a) m) = ''cmdline.in''
                  \<and> is_file (fs_of (deploy e a fs)) (joinpath (user_build_path e a) m))"
    by auto
  with l c enc show ?thesis by simp
qed

theorem cmdline_descriptor_content_witness:
  "cmd demo_args = Some ''log=info'' \<and> result_of (deploy demo_env demo_args demo_fs) = Inr ()
   \<and> text_encodable demo_env (''./kernel '' @ ''log=info'')
   \<and> lookup (fs_of (deploy demo_env demo_args demo_fs))
        [''repo'', ''target'', ''x86_64-uefi'', ''debug'', ''esp'', ''cmdline.in'']
       = Some (File ''./kernel log=info'')"
proof -
  have h1: "cmd demo_args = Some ''log=info''" by (simp add: demo_args_def)
  have h2: "result_of (deploy demo_env demo_args demo_fs) = Inr ()" by code_simp
  have p: "esp_path demo_env demo_args @ [''cmdline.in'']
      = [''repo'', ''target'', ''x86_64-uefi'', ''debug'', ''esp'', ''cmdline.in'']"
    by code_simp
  have n: "\<not> (\<exists>m \<in> set (mods demo_args). m \<noteq> ''rkapps''
                  \<and> last (joinpath (user_build_path demo_env demo_args) m) = ''cmdline.in''
                  \<and> is_file (fs_of (deploy demo_env demo_args demo_fs))
                       (joinpath (user_build_path demo_env demo_args) m))"
    by code_simp
  note th = cmdline_descriptor_content [OF h1 h2]
  from th have e: "text_encodable demo_env (''./kernel '' @ ''log=info'')" by blast
  from th n
  have "lookup (fs_of (deploy demo_env demo_args demo_fs))
          (esp_path demo_env demo_args @ [''cmdline.in''])
        = Some (File (''./kernel '' @ ''log=info''))"
    by blast
  then have "lookup (fs_of (deploy demo_env demo_args demo_fs))
        [''repo'', ''target'', ''x86_64-uefi'', ''debug'', ''esp'', ''cmdline.in'']
       = Some (File ''./kernel log=info'')"
    by (simp add: p)
  with h1 h2 e show ?thesis by simp
qed

text \<open>
  The claim as it was stated fails for a command line string that the encoding of the
  locale cannot encode: under an ASCII locale and with the string \<open>log=\<close> followed by
  the character of code point 233, line 186 has made \<open>cmdline.in\<close> empty when line 187
  raises \<open>UnicodeEncodeError\<close>; the descriptor holds nothing and the script exits with
  the status 1.
\<close>

theorem unencodable_cmdline_leaves_descriptor_empty:
  "cmd (demo_args\<lparr>cmd := Some (''log='' @ [char_of (233 :: nat)])\<rparr>)
     = Some (''log='' @ [char_of (233 :: nat)])
   \<and> \<not> text_encodable demo_ascii_env (''./kernel '' @ ''log='' @ [char_of (233 :: nat)])
   \<and> result_of (deploy demo_ascii_env
        (demo_args\<lparr>cmd := Some (''log='' @ [char_of (233 :: nat)])\<rparr>) demo_fs)
       = Inl UnicodeEncodeError
   \<and> lookup (fs_of (deploy demo_ascii_env
        (demo_args\<lparr>cmd := Some (''log='' @ [char_of (233 :: nat)])\<rparr>) demo_fs))
        [''repo'', ''target'', ''x86_64-uefi'', ''debug'', ''esp'', ''cmdline.in'']
       = Some (File [])
   \<and> exit_status (result_of (main demo_ascii_env
        (demo_args\<lparr>cmd := Some (''log='' @ [char_of (233 :: nat)])\<rparr>) demo_fs)) = 1"
proof -
  let ?a = "demo_args\<lparr>cmd := Some (''log='' @ [char_of (233 :: nat)])\<rparr>"
  have h1: "cmd ?a = Some (''log='' @ [char_of (233 :: nat)])" by simp
  have h2: "\<not> text_encodable demo_ascii_env (''./kernel '' @ ''log='' @ [char_of (233 :: nat)])"
    by code_simp
  have h3: "result_of (deploy demo_ascii_env ?a demo_fs) = Inl UnicodeEncodeError"
    by code_simp
  have h4: "lookup (fs_of (deploy demo_ascii_env ?a demo_fs))
        [''repo'', ''target'', ''x86_64-uefi'', ''debug'', ''esp'', ''cmdline.in'']
       = Some (File [])"
    by code_simp
  have h5: "exit_status (result_of (main demo_ascii_env ?a demo_fs)) = 1"
    by code_simp
  show ?thesis by (intro conjI h1 h2 h3 h4 h5)
qed

subsection \<open>The ESP tree is rebuilt\<close>

text \<open>
  Claim C5. When the ESP directory exists, \<open>deploy\<close> deletes it with everything in it
  and builds the tree anew: the deployment is the same (events, file system, result)
  as the deployment over an empty ESP directory, so nothing of the former tree has any
  influence; and after a deployment that succeeds the ESP directory exists and every
  entry below it is one this deployment places there, an entry of the fixed layout or
  the binary of a module selected now. A successful deployment leaves the ESP
  directory in place, so a second deployment in the same build mode meets the
  assumption, and an artifact of a module of the first deployment that the second does
  not select is gone.
\<close>

theorem deploy_rebuilds_esp_tree:
  assumes "lookup fs (esp_path e a) = Some Dir"
  shows "deploy e a fs
           = deploy e a ((esp_path e a, Dir) # filter (\<lambda>(q, n). \<not> prefix (esp_path e a) q) fs)
         \<and> (result_of (deploy e a fs) = Inr () \<longrightarrow>
              lookup (fs_of (deploy e a fs)) (esp_path e a) = Some Dir
              \<and> (\<forall>q. strict_prefix (esp_path e a) q \<and> lookup (fs_of (deploy e a fs)) q \<noteq> None
                     \<longrightarrow> layout_entry e a q \<or> module_entry e (mods a) a q))"
proof -
  have 1: "deploy e a fs
           = deploy e a ((esp_path e a, Dir) # filter (\<lambda>(q, n). \<not> prefix (esp_path e a) q) fs)"
    unfolding deploy_def rbind_def deploy_layout_wipe [OF assms, symmetric] ..
  have 2: "lookup (fs_of (deploy e a fs)) (esp_path e a) = Some Dir
           \<and> (\<forall>q. strict_prefix (esp_path e a) q \<and> lookup (fs_of (deploy e a fs)) q \<noteq> None
                  \<longrightarrow> layout_entry e a q \<or> module_entry e (mods a) a q)"
    if r: "result_of (deploy e a fs) = Inr ()"
  proof -
    from deploy_Inr [OF result_collapse [OF r]] obtain t1 fs1 t2 where
      l: "deploy_layout e a fs = (t1, fs1, Inr ())"
      and m: "for_each (deploy_module e a) (mods a) fs1 = (t2, fs_of (deploy e a fs), Inr ())"
      by blast
    from deploy_layout_cmdline [OF l] have d: "lookup fs1 (esp_path e a) = Some Dir" by simp
    note ch = deploy_modules_changes [OF m d]
    have "layout_entry e a q \<or> module_entry e (mods a) a q"
      if q: "strict_prefix (esp_path e a) q" "lookup (fs_of (deploy e a fs)) q \<noteq> None" for q
    proof (cases "module_entry e (mods a) a q")
      case True
      then show ?thesis ..
    next
      case False
      with ch have "lookup (fs_of (deploy e a fs)) q = lookup fs1 q" by blast
      with q(2) have "lookup fs1 q \<noteq> None" by simp
      from deploy_layout_entries [OF l assms q(1) this] show ?thesis ..
    qed
    with ch show ?thesis by blast
  qed
  from 1 2 show ?thesis by blast
qed

theorem deploy_rebuilds_esp_tree_witness:
  "lookup demo_deployed (esp_path demo_env (demo_args\<lparr>mods := []\<rparr>)) = Some Dir
   \<and> lookup demo_deployed [''repo'', ''target'', ''x86_64-uefi'', ''debug'', ''esp'', ''init'']
       = Some (File ''INIT'')
   \<and> result_of (deploy demo_env (demo_args\<lparr>mods := []\<rparr>) demo_deployed) = Inr ()
   \<and> lookup (fs_of (deploy demo_env (demo_args\<lparr>mods := []\<rparr>) demo_deployed))
        [''repo'', ''target'', ''x86_64-uefi'', ''debug'', ''esp'', ''init''] = None"
proof -
  let ?a = "demo_args\<lparr>mods := []\<rparr>"
  let ?q = "[''repo'', ''target'', ''x86_64-uefi'', ''debug'', ''esp'', ''init'']"
  have h: "lookup demo_deployed (esp_path demo_env ?a) = Some Dir" by code_simp
  have f: "lookup demo_deployed ?q = Some (File ''INIT'')" by code_simp
  have r: "result_of (deploy demo_env ?a demo_deployed) = Inr ()" by code_simp
  have s: "strict_prefix (esp_path demo_env ?a) ?q" by code_simp
  have n1: "\<not> layout_entry demo_env ?a ?q" by code_simp
  have n2: "\<not> module_entry demo_env (mods ?a) ?a ?q" by (simp add: module_entry_def)
  from deploy_rebuilds_esp_tree [OF h] r s n1 n2
  have "lookup (fs_of (deploy demo_env ?a demo_deployed)) ?q = None" by blast
  with h f r show ?thesis by simp
qed

subsection \<open>The binaries of rkapps\<close>

lemma bin_name_not_bespin: "suffix ''.bin'' n \<Longrightarrow> n \<noteq> ''bespin''"
  by (auto simp: suffix_to_prefix)

text \<open>
  Claim C6, amended. \<open>rkapps\<close> fans out only behind the test that every module passes
  first: its own binary \<open>rkapps\<close> must be a regular file of the build output directory.
  Let the deployment succeed. When \<open>rkapps\<close> is selected and that file is there, every
  regular file of the build output directory whose name ends in \<open>.bin\<close>, however many
  there are, is in the ESP root afterwards with the same content, unless a selected
  module other than \<open>rkapps\<close> has a binary, a regular file, of that very file name,
  which the loop copies to the same place. The loop over the modules writes nothing
  else: an entry of the file system that differs from what lines 162 to 187 left is
  the place in the ESP root of the binary of a selected module other than \<open>rkapps\<close>,
  or, \<open>rkapps\<close> being selected and its own binary being there, the place in the ESP
  root of such a \<open>.bin\<close> file. When the build output directory holds no regular file
  \<open>rkapps\<close>, only the first kind is left: nothing is copied for \<open>rkapps\<close>. The
  script lies at a real path, which has no \<open>..\<close> component.
\<close>

theorem rkapps_binaries_deployed:
  assumes "''..'' \<notin> set (script_path e)" and "result_of (deploy e a fs) = Inr ()"
  shows "(''rkapps'' \<in> set (mods a) \<and> is_file fs (user_build_path e a @ [''rkapps'']) \<longrightarrow>
            (\<forall>n c. suffix ''.bin'' n \<and> lookup fs (user_build_path e a @ [n]) = Some (File c) \<longrightarrow>
               lookup (fs_of (deploy e a fs)) (esp_path e a @ [n]) = Some (File c)
               \<or> (\<exists>m \<in> set (mods a). m \<noteq> ''rkapps''
                     \<and> last (joinpath (user_build_path e a) m) = n
                     \<and> is_file (fs_of (deploy e a fs)) (joinpath (user_build_path e a) m))))
         \<and> (\<forall>q. lookup (fs_of (deploy e a fs)) q = lookup (fs_of (deploy_layout e a fs)) q
              \<or> (\<exists>m \<in> set (mods a). m \<noteq> ''rkapps''
                    \<and> q = esp_path e a @ [last (joinpath (user_build_path e a) m)]
                    \<and> is_file (fs_of (deploy e a fs)) (joinpath (user_build_path e a) m))
              \<or> (''rkapps'' \<in> set (mods a)
                  \<and> is_file_entry fs (user_build_path e a @ [''rkapps''])
                  \<and> (\<exists>n. q = esp_path e a @ [n] \<and> suffix ''.bin'' n
                        \<and> is_file_entry fs (user_build_path e a @ [n]))))
         \<and> (\<not> is_file_entry fs (user_build_path e a @ [''rkapps'']) \<longrightarrow>
              (\<forall>q. lookup (fs_of (deploy e a fs)) q = lookup (fs_of (deploy_layout e a fs)) q
                 \<or> (\<exists>m \<in> set (mods a). m \<noteq> ''rkapps''
                       \<and> q = esp_path e a @ [last (joinpath (user_build_path e a) m)]
                       \<and> is_file (fs_of (deploy e a fs)) (joinpath (user_build_path e a) m))))"
proof -
  let ?ubp = "user_build_path e a"
  let ?esp = "esp_path e a"
  let ?fs' = "fs_of (deploy e a fs)"
  from deploy_Inr [OF result_collapse [OF assms(2)]] obtain t1 fs1 t2 where
    l: "deploy_layout e a fs = (t1, fs1, Inr ())"
    and m: "for_each (deploy_module e a) (mods a) fs1 = (t2, ?fs', Inr ())"
    by blast
  from l have lf: "fs_of (deploy_layout e a fs) = fs1" by simp
  from deploy_layout_cmdline [OF l] have d: "lookup fs1 ?esp = Some Dir" by simp
  note plain = user_build_path_plain [OF assms(1), of a]
  have ne: "?ubp @ [x] \<noteq> start_cwd e @ [''bespin'']" if "x \<noteq> ''bespin''" for x
    using that by auto
  have fr: "lookup fs1 (?ubp @ [x]) = Some (File c) \<longleftrightarrow> lookup fs (?ubp @ [x]) = Some (File c)"
    if "x \<noteq> ''bespin''" for x c
    using deploy_layout_frame [OF l esp_not_prefix_user [of e a "[x]"], of c] ne [OF that]
    by blast
  have fe: "is_file_entry fs1 (?ubp @ [x]) \<longleftrightarrow> is_file_entry fs (?ubp @ [x])"
    if x: "x \<noteq> ''bespin''" for x
  proof
    assume "is_file_entry fs1 (?ubp @ [x])"
    then obtain c where "lookup fs1 (?ubp @ [x]) = Some (File c)"
      by (auto simp: is_file_entry_def split: option.splits node.splits)
    with fr [OF x, of c] show "is_file_entry fs (?ubp @ [x])" by (simp add: is_file_entry_def)
  next
    assume "is_file_entry fs (?ubp @ [x])"
    then obtain c where "lookup fs (?ubp @ [x]) = Some (File c)"
      by (auto simp: is_file_entry_def split: option.splits node.splits)
    with fr [OF x, of c] show "is_file_entry fs1 (?ubp @ [x])" by (simp add: is_file_entry_def)
  qed
  note written = deploy_modules_written [OF m d]
  have 1: "lookup ?fs' (?esp @ [n]) = Some (File c)
            \<or> (\<exists>m \<in> set (mods a). m \<noteq> ''rkapps'' \<and> last (joinpath ?ubp m) = n
                  \<and> is_file ?fs' (joinpath ?ubp m))"
    if rk: "''rkapps'' \<in> set (mods a)" and f: "is_file fs (?ubp @ [''rkapps''])"
      and n: "suffix ''.bin'' n" and c: "lookup fs (?ubp @ [n]) = Some (File c)" for n c
  proof -
    have f1: "is_file fs1 (?ubp @ [''rkapps''])"
    proof (rule is_file_kept [OF plain f])
      fix i
      assume "lookup fs (take i (?ubp @ [''rkapps''])) = Some Dir"
      with deploy_layout_frame [OF l esp_not_prefix_user_take [of e a i "[''rkapps'']"]]
      show "lookup fs1 (take i (?ubp @ [''rkapps''])) = Some Dir" by blast
    next
      from f plain obtain k where k: "lookup fs (?ubp @ [''rkapps'']) = Some (File k)"
        by (auto simp: is_file_plain)
      with fr [of "''rkapps''" k]
      show "lookup fs1 (?ubp @ [''rkapps'']) = lookup fs (?ubp @ [''rkapps''])"
        by simp
    qed
    from c fr [OF bin_name_not_bespin [OF n], of c]
    have "lookup fs1 (?ubp @ [n]) = Some (File c)" by simp
    from deploy_modules_rk_copied [OF m d rk f1 n this] show ?thesis .
  qed
  have 2: "lookup ?fs' q = lookup fs1 q
              \<or> (\<exists>m \<in> set (mods a). m \<noteq> ''rkapps''
                    \<and> q = ?esp @ [last (joinpath ?ubp m)]
                    \<and> is_file ?fs' (joinpath ?ubp m))
              \<or> (''rkapps'' \<in> set (mods a) \<and> is_file_entry fs (?ubp @ [''rkapps''])
                  \<and> (\<exists>n. q = ?esp @ [n] \<and> suffix ''.bin'' n
                        \<and> is_file_entry fs (?ubp @ [n])))" for q
  proof -
    from written consider (same) "lookup ?fs' q = lookup fs1 q"
      | (other) "\<exists>m \<in> set (mods a). m \<noteq> ''rkapps''
                    \<and> q = ?esp @ [last (joinpath ?ubp m)]
                    \<and> is_file ?fs' (joinpath ?ubp m)"
      | (rk) "''rkapps'' \<in> set (mods a) \<and> is_file ?fs' (?ubp @ [''rkapps''])
                  \<and> (\<exists>n. q = ?esp @ [n] \<and> suffix ''.bin'' n
                        \<and> is_file_entry fs1 (?ubp @ [n]))"
      by blast
    then show ?thesis
    proof cases
      case same
      then show ?thesis by blast
    next
      case other
      then show ?thesis by blast
    next
      case rk
      then obtain n where n: "q = ?esp @ [n]" "suffix ''.bin'' n" "is_file_entry fs1 (?ubp @ [n])"
        by blast
      from n(3) fe [OF bin_name_not_bespin [OF n(2)]] have n3: "is_file_entry fs (?ubp @ [n])"
        by simp
      from rk plain obtain k where "lookup ?fs' (?ubp @ [''rkapps'']) = Some (File k)"
        by (auto simp: is_file_plain)
      with written have "lookup fs1 (?ubp @ [''rkapps'']) = Some (File k)" by simp
      with fr [of "''rkapps''" k] have "is_file_entry fs (?ubp @ [''rkapps''])"
        by (simp add: is_file_entry_def)
      with rk n(1,2) n3 show ?thesis by blast
    qed
  qed
  have 3: "lookup ?fs' q = lookup fs1 q
                 \<or> (\<exists>m \<in> set (mods a). m \<noteq> ''rkapps''
                       \<and> q = ?esp @ [last (joinpath ?ubp m)]
                       \<and> is_file ?fs' (joinpath ?ubp m))"
    if "\<not> is_file_entry fs (?ubp @ [''rkapps''])" for q
    using 2 [of q] that by blast
  from 1 2 3 show ?thesis unfolding lf by blast
qed

theorem rkapps_binaries_deployed_witness:
  "''..'' \<notin> set (script_path demo_env)
   \<and> ''rkapps'' \<in> set (mods (demo_args\<lparr>mods := [''init'', ''rkapps'']\<rparr>))
   \<and> is_file demo_rk_fs
        (user_build_path demo_env (demo_args\<lparr>mods := [''init'', ''rkapps'']\<rparr>) @ [''rkapps''])
   \<and> result_of (deploy demo_env (demo_args\<lparr>mods := [''init'', ''rkapps'']\<rparr>) demo_rk_fs) = Inr ()
   \<and> suffix ''.bin'' ''app.bin''
   \<and> lookup demo_rk_fs
        (user_build_path demo_env (demo_args\<lparr>mods := [''init'', ''rkapps'']\<rparr>) @ [''app.bin''])
       = Some (File ''APP'')
   \<and> lookup (fs_of (deploy demo_env (demo_args\<lparr>mods := [''init'', ''rkapps'']\<rparr>) demo_rk_fs))
        (esp_path demo_env (demo_args\<lparr>mods := [''init'', ''rkapps'']\<rparr>) @ [''app.bin''])
       = Some (File ''APP'')
   \<and> result_of (deploy demo_env (demo_args\<lparr>mods := [''init'', ''rkapps'']\<rparr>) demo_fs) = Inr ()
   \<and> \<not> is_file_entry demo_fs
        (user_build_path demo_env (demo_args\<lparr>mods := [''init'', ''rkapps'']\<rparr>) @ [''rkapps''])
   \<and> lookup (fs_of (deploy demo_env (demo_args\<lparr>mods := [''init'', ''rkapps'']\<rparr>) demo_fs))
        (esp_path demo_env (demo_args\<lparr>mods := [''init'', ''rkapps'']\<rparr>) @ [''app.bin''])
       = lookup (fs_of (deploy_layout demo_env (demo_args\<lparr>mods := [''init'', ''rkapps'']\<rparr>) demo_fs))
           (esp_path demo_env (demo_args\<lparr>mods := [''init'', ''rkapps'']\<rparr>) @ [''app.bin''])"
proof -
  let ?a = "demo_args\<lparr>mods := [''init'', ''rkapps'']\<rparr>"
  have h1: "''..'' \<notin> set (script_path demo_env)" by (simp add: demo_env_def)
  have h2: "''rkapps'' \<in> set (mods ?a)" by simp
  have h3: "is_file demo_rk_fs (user_build_path demo_env ?a @ [''rkapps''])" by code_simp
  have h4: "result_of (deploy demo_env ?a demo_rk_fs) = Inr ()" by code_simp
  have h5: "suffix ''.bin'' ''app.bin''" by (simp add: suffix_to_prefix)
  have h6: "lookup demo_rk_fs (user_build_path demo_env ?a @ [''app.bin'']) = Some (File ''APP'')"
    by code_simp
  have n: "\<not> (\<exists>m \<in> set (mods ?a). m \<noteq> ''rkapps''
                  \<and> last (joinpath (user_build_path demo_env ?a) m) = ''app.bin''
                  \<and> is_file (fs_of (deploy demo_env ?a demo_rk_fs))
                       (joinpath (user_build_path demo_env ?a) m))"
    by code_simp
  from rkapps_binaries_deployed [OF h1 h4] h2 h3 h5 h6 n
  have c1: "lookup (fs_of (deploy demo_env ?a demo_rk_fs)) (esp_path demo_env ?a @ [''app.bin''])
       = Some (File ''APP'')"
    by blast
  have h7: "result_of (deploy demo_env ?a demo_fs) = Inr ()" by code_simp
  have h8: "\<not> is_file_entry demo_fs (user_build_path demo_env ?a @ [''rkapps''])" by code_simp
  have n2: "\<not> (\<exists>m \<in> set (mods ?a). m \<noteq> ''rkapps''
                  \<and> esp_path demo_env ?a @ [''app.bin'']
                      = esp_path demo_env ?a @ [last (joinpath (user_build_path demo_env ?a) m)]
                  \<and> is_file (fs_of (deploy demo_env ?a demo_fs))
                       (joinpath (user_build_path demo_env ?a) m))"
    by code_simp
  from rkapps_binaries_deployed [OF h1 h7] h8 n2
  have c2: "lookup (fs_of (deploy demo_env ?a demo_fs)) (esp_path demo_env ?a @ [''app.bin''])
       = lookup (fs_of (deploy_layout demo_env ?a demo_fs)) (esp_path demo_env ?a @ [''app.bin''])"
    by blast
  show ?thesis by (intro conjI h1 h2 h3 h4 h5 h6 c1 h7 h8 c2)
qed

text \<open>
  The claim as it was stated fails when \<open>rkapps\<close> is selected and the build output
  directory holds \<open>app.bin\<close> but no file \<open>rkapps\<close>: the deployment succeeds and copies
  nothing to the ESP root.
\<close>

theorem rkapps_without_own_binary_copies_nothing:
  "''rkapps'' \<in> set (mods (demo_args\<lparr>mods := [''rkapps'']\<rparr>))
   \<and> lookup demo_fs [''repo'', ''target'', ''x86_64-bespin-none'', ''debug'', ''app.bin'']
       = Some (File ''APP'')
   \<and> user_build_path demo_env (demo_args\<lparr>mods := [''rkapps'']\<rparr>)
       = [''repo'', ''target'', ''x86_64-bespin-none'', ''debug'']
   \<and> esp_path demo_env (demo_args\<lparr>mods := [''rkapps'']\<rparr>)
       = [''repo'', ''target'', ''x86_64-uefi'', ''debug'', ''esp'']
   \<and> result_of (deploy demo_env (demo_args\<lparr>mods := [''rkapps'']\<rparr>) demo_fs) = Inr ()
   \<and> lookup (fs_of (deploy demo_env (demo_args\<lparr>mods := [''rkapps'']\<rparr>) demo_fs))
        [''repo'', ''target'', ''x86_64-uefi'', ''debug'', ''esp'', ''app.bin''] = None"
proof -
  let ?a = "demo_args\<lparr>mods := [''rkapps'']\<rparr>"
  have h1: "''rkapps'' \<in> set (mods ?a)" by simp
  have h2: "lookup demo_fs [''repo'', ''target'', ''x86_64-bespin-none'', ''debug'', ''app.bin'']
       = Some (File ''APP'')" by code_simp
  have h3: "user_build_path demo_env ?a = [''repo'', ''target'', ''x86_64-bespin-none'', ''debug'']"
    by code_simp
  have h4: "esp_path demo_env ?a = [''repo'', ''target'', ''x86_64-uefi'', ''debug'', ''esp'']"
    by code_simp
  have h5: "result_of (deploy demo_env ?a demo_fs) = Inr ()" by code_simp
  have h6: "lookup (fs_of (deploy demo_env ?a demo_fs))
        [''repo'', ''target'', ''x86_64-uefi'', ''debug'', ''esp'', ''app.bin''] = None"
    by code_simp
  show ?thesis by (intro conjI h1 h2 h3 h4 h5 h6)
qed


end
